theory Spec2Isabelle
  imports Complex_Main
begin

unbundle bit_operations_syntax

section \<open>Data model of main.cpp\<close>

text \<open>
  A C++ \<open>double\<close> is modelled by the real number it denotes. Comparisons, the unary minus
  and \<open>std::fmod\<close> are exact on doubles. Every sum, difference, product and quotient and
  every square root of the program is the exact result rounded to the nearest double
  (\<open>dadd\<close>, \<open>dsub\<close>, \<open>dmul\<close>, \<open>ddiv\<close>, \<open>dsqrt\<close> below). The exponent range of a double is
  not modelled: there is no overflow to an infinity, no NaN and no loss of precision near
  zero. The constant \<open>std::numbers::pi\<close> and the functions \<open>std::cos\<close> and \<open>std::sin\<close> belong
  to the C++ library; they are parameters of the model (\<open>libm\<close>). The fields \<open>x\<close>, \<open>y\<close> of
  \<open>Point_2\<close> are called \<open>px\<close>, \<open>py\<close>, and the fields \<open>start\<close>, \<open>end\<close> of \<open>Line_2\<close> are called
  \<open>start\<close>, \<open>endp\<close>.
\<close>

subsection \<open>Arithmetic of doubles\<close>

text \<open>
  IEEE 754, binary64, round to nearest, a tie going to the double whose last bit is 0. A
  double has a significand of 53 bits, so around \<open>a\<close> two neighbouring doubles are \<open>ulp a\<close>
  apart.
\<close>

definition ulp :: "real \<Rightarrow> real" where
  "ulp a = 2 powr (of_int \<lfloor>log 2 \<bar>a\<bar>\<rfloor> - 52)"

definition round_half_even :: "real \<Rightarrow> int" where
  "round_half_even z =
     (if z - of_int \<lfloor>z\<rfloor> < 1 / 2 then \<lfloor>z\<rfloor>
      else if z - of_int \<lfloor>z\<rfloor> > 1 / 2 then \<lfloor>z\<rfloor> + 1
      else if even \<lfloor>z\<rfloor> then \<lfloor>z\<rfloor> else \<lfloor>z\<rfloor> + 1)"

definition round_double :: "real \<Rightarrow> real" where
  "round_double a = (if a = 0 then 0 else of_int (round_half_even (a / ulp a)) * ulp a)"

definition dadd :: "real \<Rightarrow> real \<Rightarrow> real" where
  "dadd a b = round_double (a + b)"

definition dsub :: "real \<Rightarrow> real \<Rightarrow> real" where
  "dsub a b = round_double (a - b)"

definition dmul :: "real \<Rightarrow> real \<Rightarrow> real" where
  "dmul a b = round_double (a * b)"

definition ddiv :: "real \<Rightarrow> real \<Rightarrow> real" where
  "ddiv a b = round_double (a / b)"

definition dsqrt :: "real \<Rightarrow> real" where
  "dsqrt a = round_double (sqrt a)"

text \<open>The parts of the C++ library that \<open>main\<close> uses: \<open>std::numbers::pi\<close>, \<open>std::cos\<close>, \<open>std::sin\<close>.\<close>

record libm =
  lib_pi :: real
  lib_cos :: "real \<Rightarrow> real"
  lib_sin :: "real \<Rightarrow> real"

subsection \<open>Points and lines\<close>

record Point_2 =
  px :: real
  py :: real

record Line_2 =
  start :: Point_2
  endp :: Point_2

type_synonym Lines = "Line_2 list"

text \<open>\<open>enum OutCode { INSIDE = 0, LEFT = 1, RIGHT = 2, BOTTOM = 4, TOP = 8 }\<close>, used as \<open>int\<close>.\<close>

definition INSIDE :: int where "INSIDE = 0"
definition LEFT :: int where "LEFT = 1"
definition RIGHT :: int where "RIGHT = 2"
definition BOTTOM :: int where "BOTTOM = 4"
definition TOP :: int where "TOP = 8"

section \<open>computeOutCode\<close>

definition computeOutCode :: "real \<Rightarrow> real \<Rightarrow> Point_2 \<Rightarrow> Point_2 \<Rightarrow> int" where
  "computeOutCode a b bottomLeft topRight =
     (let code = INSIDE;
          code = (if a < px bottomLeft then code OR LEFT
                  else if a > px topRight then code OR RIGHT
                  else code);
          code = (if b < py bottomLeft then code OR BOTTOM
                  else if b > py topRight then code OR TOP
                  else code)
      in code)"

section \<open>clipLine\<close>

text \<open>The local variables of \<open>clipLine\<close> that the loop reads and writes.\<close>

record clip_state =
  x0 :: real
  y0 :: real
  x1 :: real
  y1 :: real
  outcode0 :: int
  outcode1 :: int

text \<open>Lines 108 to 112: the state on entry to the loop.\<close>

definition clip_init :: "Line_2 \<Rightarrow> Point_2 \<Rightarrow> Point_2 \<Rightarrow> clip_state" where
  "clip_init line bottomLeft topRight =
     \<lparr> x0 = px (start line), y0 = py (start line),
       x1 = px (endp line), y1 = py (endp line),
       outcode0 = computeOutCode (px (start line)) (py (start line)) bottomLeft topRight,
       outcode1 = computeOutCode (px (endp line)) (py (endp line)) bottomLeft topRight \<rparr>"

text \<open>Line 125: the outcode of the endpoint that is moved.\<close>

definition outcodeOut :: "clip_state \<Rightarrow> int" where
  "outcodeOut s = (if outcode0 s \<noteq> 0 then outcode0 s else outcode1 s)"

text \<open>Lines 127 to 142: the point \<open>(x, y)\<close> where the line meets the edge that is tested.\<close>

definition trim_point :: "clip_state \<Rightarrow> Point_2 \<Rightarrow> Point_2 \<Rightarrow> real \<times> real" where
  "trim_point s bottomLeft topRight =
     (if outcodeOut s AND TOP \<noteq> 0 then
        (dadd (x0 s) (ddiv (dmul (dsub (x1 s) (x0 s)) (dsub (py topRight) (y0 s)))
                          (dsub (y1 s) (y0 s))),
         py topRight)
      else if outcodeOut s AND BOTTOM \<noteq> 0 then
        (dadd (x0 s) (ddiv (dmul (dsub (x1 s) (x0 s)) (dsub (py bottomLeft) (y0 s)))
                          (dsub (y1 s) (y0 s))),
         py bottomLeft)
      else if outcodeOut s AND RIGHT \<noteq> 0 then
        (px topRight,
         dadd (y0 s) (ddiv (dmul (dsub (y1 s) (y0 s)) (dsub (px topRight) (x0 s)))
                          (dsub (x1 s) (x0 s))))
      else
        (px bottomLeft,
         dadd (y0 s) (ddiv (dmul (dsub (y1 s) (y0 s)) (dsub (px bottomLeft) (x0 s)))
                          (dsub (x1 s) (x0 s)))))"

text \<open>The divisor of the quotient that \<open>trim_point\<close> takes in the branch it selects.\<close>

definition trim_divisor :: "clip_state \<Rightarrow> real" where
  "trim_divisor s =
     (if outcodeOut s AND TOP \<noteq> 0 then dsub (y1 s) (y0 s)
      else if outcodeOut s AND BOTTOM \<noteq> 0 then dsub (y1 s) (y0 s)
      else if outcodeOut s AND RIGHT \<noteq> 0 then dsub (x1 s) (x0 s)
      else dsub (x1 s) (x0 s))"

text \<open>Lines 123 to 152: one pass through the \<open>else\<close> branch of the loop.\<close>

definition trim_step :: "Point_2 \<Rightarrow> Point_2 \<Rightarrow> clip_state \<Rightarrow> clip_state" where
  "trim_step bottomLeft topRight s =
     (let (a, b) = trim_point s bottomLeft topRight in
      if outcodeOut s = outcode0 s then
        s\<lparr> x0 := a, y0 := b, outcode0 := computeOutCode a b bottomLeft topRight \<rparr>
      else
        s\<lparr> x1 := a, y1 := b, outcode1 := computeOutCode a b bottomLeft topRight \<rparr>)"

text \<open>
  Lines 115 to 153: \<open>while (true)\<close> with its two \<open>break\<close>s. The result is the value of
  \<open>accept\<close> and the state at the \<open>break\<close>; \<open>None\<close> is a loop that never leaves.
\<close>

partial_function (option) clip_loop ::
  "Point_2 \<Rightarrow> Point_2 \<Rightarrow> clip_state \<Rightarrow> (bool \<times> clip_state) option" where
  "clip_loop bottomLeft topRight s =
     (if outcode0 s OR outcode1 s = 0 then Some (True, s)
      else if outcode0 s AND outcode1 s \<noteq> 0 then Some (False, s)
      else clip_loop bottomLeft topRight (trim_step bottomLeft topRight s))"

text \<open>
  \<open>clipLine\<close> returns its boolean and the value of the reference argument \<open>line\<close> after
  the call: written on the accept path only (lines 155 to 160).
\<close>

definition clipLine :: "Line_2 \<Rightarrow> Point_2 \<Rightarrow> Point_2 \<Rightarrow> (bool \<times> Line_2) option" where
  "clipLine line bottomLeft topRight =
     (case clip_loop bottomLeft topRight (clip_init line bottomLeft topRight) of
        None \<Rightarrow> None
      | Some (accept, s) \<Rightarrow>
          if accept then
            Some (True, line\<lparr> start := \<lparr> px = x0 s, py = y0 s \<rparr>,
                              endp := \<lparr> px = x1 s, py = y1 s \<rparr> \<rparr>)
          else Some (False, line))"

section \<open>main: generation of the hatch lines\<close>

text \<open>
  \<open>for (double v = init; cond(v); v = incr(v)) body\<close>, where the body works on the vector
  \<open>hatchLines\<close>. \<open>None\<close> is a loop that never leaves.
\<close>

partial_function (option) for_loop ::
  "(real \<Rightarrow> bool) \<Rightarrow> (real \<Rightarrow> real) \<Rightarrow> (real \<Rightarrow> Lines \<Rightarrow> Lines option) \<Rightarrow> real \<Rightarrow> Lines
     \<Rightarrow> Lines option" where
  "for_loop cond incr body v hatchLines =
     (if cond v then
        Option.bind (body v hatchLines) (\<lambda>hatchLines'. for_loop cond incr body (incr v) hatchLines')
      else Some hatchLines)"

definition degreesToRadians :: "libm \<Rightarrow> real \<Rightarrow> real" where
  "degreesToRadians lib degrees = ddiv (dmul degrees (lib_pi lib)) 180"

text \<open>
  \<open>std::fmod a b\<close> is \<open>a - n * b\<close>, where \<open>n\<close> is the quotient \<open>a / b\<close> with its fractional
  part cut off (rounded towards zero); the result is a double, there is no rounding.
\<close>

definition fmod :: "real \<Rightarrow> real \<Rightarrow> real" where
  "fmod a b = a - of_int (if 0 \<le> a / b then \<lfloor>a / b\<rfloor> else \<lceil>a / b\<rceil>) * b"

text \<open>Lines 196 and 197.\<close>

definition normalize_angle :: "real \<Rightarrow> real" where
  "normalize_angle angleDegrees =
     (let angleDegrees = fmod angleDegrees 360 in
      if angleDegrees < 0 then dadd angleDegrees 360 else angleDegrees)"

text \<open>Lines 214 and 220: \<open>hatchLines.push_back({ {bottomLeft.x, y}, {topRight.x, y} })\<close>.\<close>

definition horizontal_line :: "Point_2 \<Rightarrow> Point_2 \<Rightarrow> real \<Rightarrow> Line_2" where
  "horizontal_line bottomLeft topRight v =
     \<lparr> start = \<lparr> px = px bottomLeft, py = v \<rparr>, endp = \<lparr> px = px topRight, py = v \<rparr> \<rparr>"

text \<open>Line 226: \<open>hatchLines.push_back({ {x, bottomLeft.y}, {x, topRight.y} })\<close>.\<close>

definition vertical_line :: "Point_2 \<Rightarrow> Point_2 \<Rightarrow> real \<Rightarrow> Line_2" where
  "vertical_line bottomLeft topRight v =
     \<lparr> start = \<lparr> px = v, py = py bottomLeft \<rparr>, endp = \<lparr> px = v, py = py topRight \<rparr> \<rparr>"

text \<open>Lines 231 to 239: the candidate line at one offset.\<close>

definition candidate_line :: "libm \<Rightarrow> Point_2 \<Rightarrow> real \<Rightarrow> real \<Rightarrow> real \<Rightarrow> Line_2" where
  "candidate_line lib center angleRadians diagonal offset =
     (let dir = \<lparr> px = lib_cos lib angleRadians, py = lib_sin lib angleRadians \<rparr>;
          perp = \<lparr> px = - py dir, py = px dir \<rparr>
      in \<lparr> start = \<lparr> px = dsub (dadd (px center) (dmul (px perp) offset))
                               (ddiv (dmul (px dir) diagonal) 2),
                     py = dsub (dadd (py center) (dmul (py perp) offset))
                               (ddiv (dmul (py dir) diagonal) 2) \<rparr>,
           endp = \<lparr> px = dadd (dadd (px center) (dmul (px perp) offset))
                              (ddiv (dmul (px dir) diagonal) 2),
                    py = dadd (dadd (py center) (dmul (py perp) offset))
                              (ddiv (dmul (py dir) diagonal) 2) \<rparr> \<rparr>)"

text \<open>Lines 231 to 242: the body of the loop over the offsets.\<close>

definition clip_body ::
  "libm \<Rightarrow> Point_2 \<Rightarrow> Point_2 \<Rightarrow> Point_2 \<Rightarrow> real \<Rightarrow> real \<Rightarrow> real \<Rightarrow> Lines \<Rightarrow> Lines option" where
  "clip_body lib bottomLeft topRight center angleRadians diagonal offset hatchLines =
     (case clipLine (candidate_line lib center angleRadians diagonal offset) bottomLeft topRight of
        None \<Rightarrow> None
      | Some (ok, line) \<Rightarrow> if ok then Some (hatchLines @ [line]) else Some hatchLines)"

text \<open>
  Lines 199 to 244, for the angle that lines 196 and 197 have normalised: the vector
  \<open>hatchLines\<close> when the generation is over.
\<close>

definition generate :: "libm \<Rightarrow> Point_2 \<Rightarrow> Point_2 \<Rightarrow> real \<Rightarrow> real \<Rightarrow> Lines option" where
  "generate lib bottomLeft topRight angleDegrees step =
     (let angleRadians = degreesToRadians lib angleDegrees;
          width = dsub (px topRight) (px bottomLeft);
          height = dsub (py topRight) (py bottomLeft);
          diagonal = dsqrt (dadd (dmul width width) (dmul height height));
          center = \<lparr> px = ddiv (dadd (px bottomLeft) (px topRight)) 2,
                     py = ddiv (dadd (py bottomLeft) (py topRight)) 2 \<rparr>
      in
      if angleDegrees = 0 \<or> angleDegrees = 360 then
        for_loop (\<lambda>v. v \<le> py topRight) (\<lambda>v. dadd v step)
          (\<lambda>v hatchLines. Some (hatchLines @ [horizontal_line bottomLeft topRight v]))
          (py bottomLeft) []
      else if angleDegrees = 180 \<or> angleDegrees = - 180 then
        for_loop (\<lambda>v. v \<ge> py bottomLeft) (\<lambda>v. dsub v step)
          (\<lambda>v hatchLines. Some (hatchLines @ [horizontal_line bottomLeft topRight v]))
          (py topRight) []
      else if angleDegrees = 90 \<or> angleDegrees = - 90 \<or> angleDegrees = 270 \<or> angleDegrees = - 270 then
        for_loop (\<lambda>v. v \<le> px topRight) (\<lambda>v. dadd v step)
          (\<lambda>v hatchLines. Some (hatchLines @ [vertical_line bottomLeft topRight v]))
          (px bottomLeft) []
      else
        for_loop (\<lambda>v. v \<le> ddiv diagonal 2) (\<lambda>v. dadd v step)
          (clip_body lib bottomLeft topRight center angleRadians diagonal)
          (ddiv (- diagonal) 2) [])"

text \<open>
  What a run of \<open>main\<close> leaves behind: its exit code, what it wrote to \<open>std::cerr\<close>, and the
  vector \<open>hatchLines\<close> (which it then prints and draws).
\<close>

record run =
  exit_code :: int
  cerr :: string
  hatchLines :: Lines

text \<open>
  Lines 191 to 244 of \<open>main\<close>, with the rectangle and the two values read from the command
  line as parameters. \<open>None\<close> is a run that never gets to the end of the generation.
\<close>

definition main_body :: "libm \<Rightarrow> Point_2 \<Rightarrow> Point_2 \<Rightarrow> real \<Rightarrow> real \<Rightarrow> run option" where
  "main_body lib bottomLeft topRight angleDegrees step =
     (if step \<le> 0 then
        Some \<lparr> exit_code = 1,
               cerr = ''Error: step must be greater than zero'' @ [CHR 0x0A],
               hatchLines = [] \<rparr>
      else
        map_option (\<lambda>ls. \<lparr> exit_code = 0, cerr = [], hatchLines = ls \<rparr>)
          (generate lib bottomLeft topRight (normalize_angle angleDegrees) step))"

text \<open>\<open>main\<close> with the rectangle of line 178, \<open>(0,0)\<close> to \<open>(20,10)\<close>.\<close>

definition main :: "libm \<Rightarrow> real \<Rightarrow> real \<Rightarrow> run option" where
  "main lib angleDegrees step =
     main_body lib \<lparr> px = 0, py = 0 \<rparr> \<lparr> px = 20, py = 10 \<rparr> angleDegrees step"

section \<open>Notions used to state the properties\<close>

text \<open>The invariant of \<open>Rectangle\<close>: the corner \<open>bottomLeft\<close> is below and left of \<open>topRight\<close>.\<close>

definition valid_rect :: "Point_2 \<Rightarrow> Point_2 \<Rightarrow> bool" where
  "valid_rect bl tr \<longleftrightarrow> px bl \<le> px tr \<and> py bl \<le> py tr"

text \<open>A point, and both endpoints of a line, inside or on the boundary of the rectangle.\<close>

definition point_inside :: "Point_2 \<Rightarrow> Point_2 \<Rightarrow> Point_2 \<Rightarrow> bool" where
  "point_inside bl tr p \<longleftrightarrow> px bl \<le> px p \<and> px p \<le> px tr \<and> py bl \<le> py p \<and> py p \<le> py tr"


text \<open>A real number that is a double: rounding leaves it as it is.\<close>

definition is_double :: "real \<Rightarrow> bool" where
  "is_double a \<longleftrightarrow> round_double a = a"

text \<open>The two outcode variables hold the outcodes of the two current endpoints.\<close>

definition codes_ok :: "Point_2 \<Rightarrow> Point_2 \<Rightarrow> clip_state \<Rightarrow> bool" where
  "codes_ok bl tr s \<longleftrightarrow>
     outcode0 s = computeOutCode (x0 s) (y0 s) bl tr \<and>
     outcode1 s = computeOutCode (x1 s) (y1 s) bl tr"

text \<open>The loop of \<open>clipLine\<close> leaves in this state: the test of line 116 or of line 120 holds.\<close>

definition loop_exit :: "clip_state \<Rightarrow> bool" where
  "loop_exit s \<longleftrightarrow> outcode0 s OR outcode1 s = 0 \<or> outcode0 s AND outcode1 s \<noteq> 0"

text \<open>
  The states in which the loop of \<open>clipLine\<close> evaluates its tests: the state on entry, and
  the state after a trim step taken from such a state in which neither test held.
\<close>

inductive clip_reach :: "Point_2 \<Rightarrow> Point_2 \<Rightarrow> Line_2 \<Rightarrow> clip_state \<Rightarrow> bool"
  for bl tr line where
  entry: "clip_reach bl tr line (clip_init line bl tr)"
| again: "clip_reach bl tr line s \<Longrightarrow> \<not> loop_exit s \<Longrightarrow> clip_reach bl tr line (trim_step bl tr s)"

text \<open>
  A C++ library for the runs that are computed below. Its constant \<open>std::numbers::pi\<close> is
  the double nearest to \<open>\<pi>\<close>, \<open>0x1.921fb54442d18p+1\<close>. The angles 45 and 225 give the
  radians \<open>0x1.921fb54442d18p-1\<close> and \<open>0x1.f6a7a2955385ep+1\<close>; there the values of
  \<open>std::cos\<close> and \<open>std::sin\<close> are written out: \<open>0.7071067811865476\<close> and
  \<open>0.7071067811865475\<close> at the first, \<open>-0.7071067811865477\<close> and \<open>-0.7071067811865475\<close> at
  the second (the doubles nearest to the exact cosine and sine). Elsewhere the value is
  the exact one, rounded.
\<close>

definition nearest_libm :: libm where
  "nearest_libm =
     \<lparr> lib_pi = 884279719003555 / 2 ^ 48,
       lib_cos = (\<lambda>a. if a = 884279719003555 / 2 ^ 50 then 6369051672525773 / 2 ^ 53
                     else if a = 4421398595017775 / 2 ^ 50 then - (3184525836262887 / 2 ^ 52)
                     else round_double (cos a)),
       lib_sin = (\<lambda>a. if a = 884279719003555 / 2 ^ 50 then 1592262918131443 / 2 ^ 51
                     else if a = 4421398595017775 / 2 ^ 50 then - (1592262918131443 / 2 ^ 51)
                     else round_double (sin a)) \<rparr>"

section \<open>Rounding to the nearest double\<close>

lemma ulp_pos: "0 < ulp a"
  by (simp add: ulp_def)

lemma round_half_even_le:
  assumes "z \<le> of_int N"
  shows "round_half_even z \<le> N"
proof -
  have f: "\<lfloor>z\<rfloor> \<le> N" using assms by (simp add: floor_le_iff)
  show ?thesis
  proof (cases "\<lfloor>z\<rfloor> = N")
    case True
    then have "z - of_int \<lfloor>z\<rfloor> \<le> 0" using assms by simp
    then show ?thesis using True by (simp add: round_half_even_def)
  next
    case False
    then have "\<lfloor>z\<rfloor> + 1 \<le> N" using f by simp
    then show ?thesis by (auto simp: round_half_even_def)
  qed
qed

lemma round_half_even_ge:
  assumes "of_int N \<le> z"
  shows "N \<le> round_half_even z"
proof -
  have "N \<le> \<lfloor>z\<rfloor>" using assms by (simp add: le_floor_iff)
  then show ?thesis by (auto simp: round_half_even_def)
qed

lemma round_half_even_of_int: "round_half_even (of_int n) = n"
  by (simp add: round_half_even_def)

lemma round_half_even_near:
  assumes "of_int m - 1 / 2 < z" and "z < of_int m + 1 / 2"
  shows "round_half_even z = m"
proof (cases "of_int m \<le> z")
  case True
  then have "\<lfloor>z\<rfloor> = m" using assms(2) by (intro floor_unique) simp_all
  then show ?thesis using assms(2) by (simp add: round_half_even_def)
next
  case False
  then have "\<lfloor>z\<rfloor> = m - 1" using assms(1) by (intro floor_unique) simp_all
  then show ?thesis using assms(1) False by (simp add: round_half_even_def)
qed


lemma binade:
  assumes "a \<noteq> 0"
  shows "2 ^ 52 \<le> \<bar>a\<bar> / ulp a" and "\<bar>a\<bar> / ulp a < 2 ^ 53"
proof -
  define e where "e = \<lfloor>log 2 \<bar>a\<bar>\<rfloor>"
  have pos: "0 < \<bar>a\<bar>" using assms by simp
  have "\<lfloor>log 2 \<bar>a\<bar>\<rfloor> = e" by (simp add: e_def)
  then have b: "2 powr (of_int e) \<le> \<bar>a\<bar>" "\<bar>a\<bar> < 2 powr (of_int (e + 1))"
    using floor_log_eq_powr_iff[OF pos, of 2 e] by simp_all
  have u: "ulp a = 2 powr (of_int e - 52)" by (simp add: ulp_def e_def)
  have d: "\<bar>a\<bar> / ulp a = \<bar>a\<bar> * 2 powr (52 - of_int e)"
    unfolding u by (simp add: powr_diff)
  have "2 powr (of_int e) * 2 powr (52 - of_int e) \<le> \<bar>a\<bar> * 2 powr (52 - of_int e)"
    using b(1) by (intro mult_right_mono) simp_all
  then show "2 ^ 52 \<le> \<bar>a\<bar> / ulp a" unfolding d by (simp add: powr_add[symmetric])
  have "\<bar>a\<bar> * 2 powr (52 - of_int e) < 2 powr (of_int (e + 1)) * 2 powr (52 - of_int e)"
    using b(2) by (intro mult_strict_right_mono) simp_all
  then show "\<bar>a\<bar> / ulp a < 2 ^ 53" unfolding d by (simp add: powr_add[symmetric])
qed

lemma round_double_pos:
  assumes "0 < a"
  shows "2 ^ 52 * ulp a \<le> round_double a" and "round_double a \<le> 2 ^ 53 * ulp a"
    and "0 < round_double a"
proof -
  have a: "a \<noteq> 0" "\<bar>a\<bar> = a" using assms by simp_all
  have lo: "of_int (2 ^ 52) \<le> a / ulp a" and hi: "a / ulp a \<le> of_int (2 ^ 53)"
    using binade[OF a(1)] a(2) by simp_all
  have "2 ^ 52 \<le> round_half_even (a / ulp a)" by (rule round_half_even_ge[OF lo])
  then have "of_int (2 ^ 52) * ulp a \<le> of_int (round_half_even (a / ulp a)) * ulp a"
    using ulp_pos[of a] by (simp only: mult_le_cancel_right_pos of_int_le_iff)
  then show 1: "2 ^ 52 * ulp a \<le> round_double a" using a(1) by (simp add: round_double_def)
  have "round_half_even (a / ulp a) \<le> 2 ^ 53" by (rule round_half_even_le[OF hi])
  then have "of_int (round_half_even (a / ulp a)) * ulp a \<le> of_int (2 ^ 53) * ulp a"
    using ulp_pos[of a] by (simp only: mult_le_cancel_right_pos of_int_le_iff)
  then show "round_double a \<le> 2 ^ 53 * ulp a" using a(1) by (simp add: round_double_def)
  have "0 < 2 ^ 52 * ulp a" using ulp_pos[of a] by simp
  with 1 show "0 < round_double a" by linarith
qed

lemma round_half_even_minus: "round_half_even (- z) = - round_half_even z"
proof (cases "z = of_int \<lfloor>z\<rfloor>")
  case True
  then obtain n where z: "z = of_int n" ..
  have "- z = of_int (- n)" by (simp add: z)
  then have "round_half_even (- z) = - n" by (simp only: round_half_even_of_int)
  then show ?thesis by (simp add: z round_half_even_of_int)
next
  case False
  have "of_int \<lfloor>z\<rfloor> \<le> z" by simp
  with False have zf: "of_int \<lfloor>z\<rfloor> < z" by (metis less_le)
  have "\<lfloor>- z\<rfloor> = - \<lfloor>z\<rfloor> - 1"
  proof (rule floor_unique)
    show "of_int (- \<lfloor>z\<rfloor> - 1) \<le> - z" by simp linarith
    show "- z < of_int (- \<lfloor>z\<rfloor> - 1) + 1" using zf by simp
  qed
  then have f: "\<lfloor>- z\<rfloor> = - \<lfloor>z\<rfloor> - 1"
    and d: "- z - of_int \<lfloor>- z\<rfloor> = 1 - (z - of_int \<lfloor>z\<rfloor>)" by simp_all
  show ?thesis unfolding round_half_even_def[of "- z"] d unfolding f round_half_even_def[of z]
    by auto
qed

lemma ulp_minus: "ulp (- a) = ulp a"
  by (simp add: ulp_def)

lemma round_double_minus: "round_double (- a) = - round_double a"
  by (simp add: round_double_def ulp_minus round_half_even_minus)

lemma round_double_neg:
  assumes "a < 0"
  shows "round_double a < 0"
  using round_double_pos(3)[of "- a"] assms by (simp add: round_double_minus)

lemma round_double_eq_0_iff: "round_double a = 0 \<longleftrightarrow> a = 0"
proof (cases "a = 0")
  case True
  then show ?thesis by (simp add: round_double_def)
next
  case False
  then consider "0 < a" | "a < 0" by linarith
  then show ?thesis
    using round_double_pos(3)[of a] round_double_neg[of a] False by cases simp_all
qed



lemma ulp_eval:
  fixes k :: nat
  assumes "2 ^ 52 \<le> \<bar>a\<bar> * 2 ^ k" and "\<bar>a\<bar> * 2 ^ k < 2 ^ 53"
  shows "ulp a = 1 / 2 ^ k"
proof -
  have pos: "0 < \<bar>a\<bar>" using assms(1) by (cases "a = 0") simp_all
  have p: "(2::real) powr (of_int (52 - int k)) = 2 ^ 52 / 2 ^ k"
       "(2::real) powr (of_int (52 - int k + 1)) = 2 ^ 53 / 2 ^ k"
    by (simp_all add: powr_diff powr_realpow)
  have h: "2 powr (of_int (52 - int k)) \<le> \<bar>a\<bar> \<and> \<bar>a\<bar> < 2 powr (of_int (52 - int k + 1))"
    unfolding p using assms by (simp add: field_simps)
  have b: "(1::real) < 2" by simp
  have "\<lfloor>log 2 \<bar>a\<bar>\<rfloor> = 52 - int k"
    by (rule floor_log_eq_powr_iff[OF pos b, THEN iffD2, OF h])
  then have "ulp a = 2 powr (- real k)" by (simp add: ulp_def)
  then show ?thesis by (simp add: powr_minus_divide powr_realpow)
qed

lemma round_double_eval:
  fixes k :: nat and m :: int
  assumes "2 ^ 52 \<le> \<bar>a\<bar> * 2 ^ k" and "\<bar>a\<bar> * 2 ^ k < 2 ^ 53"
    and "of_int m - 1 / 2 < a * 2 ^ k" and "a * 2 ^ k < of_int m + 1 / 2"
    and "r = of_int m / 2 ^ k"
  shows "round_double a = r"
proof -
  have nz: "a \<noteq> 0" using assms(1) by (cases "a = 0") simp_all
  have u: "ulp a = 1 / 2 ^ k" by (rule ulp_eval[OF assms(1,2)])
  have "round_half_even (a / ulp a) = m"
    unfolding u using assms(3,4) by (intro round_half_even_near) simp_all
  then show ?thesis using nz by (simp add: round_double_def u assms(5))
qed

lemma round_double_exact:
  fixes k :: nat and m :: int
  assumes "2 ^ 52 \<le> \<bar>a\<bar> * 2 ^ k" and "\<bar>a\<bar> * 2 ^ k < 2 ^ 53" and "a * 2 ^ k = of_int m"
  shows "round_double a = a"
proof (rule round_double_eval[OF assms(1,2), of m])
  show "of_int m - 1 / 2 < a * 2 ^ k" "a * 2 ^ k < of_int m + 1 / 2" using assms(3) by simp_all
  have "a = a * 2 ^ k / 2 ^ k" by simp
  then show "a = of_int m / 2 ^ k" unfolding assms(3) .
qed

lemma round_double_of_int:
  assumes "\<bar>n\<bar> < 2 ^ 53"
  shows "round_double (of_int n) = of_int n"
proof (cases "n = 0")
  case True
  then show ?thesis by (simp add: round_double_def)
next
  case False
  define a :: real where "a = of_int n"
  have nz: "a \<noteq> 0" using False by (simp add: a_def)
  define e where "e = \<lfloor>log 2 \<bar>a\<bar>\<rfloor>"
  have pos: "0 < \<bar>a\<bar>" using nz by simp
  have "\<bar>a\<bar> < 2 ^ 53" using assms unfolding a_def
    by (metis of_int_abs of_int_less_iff of_int_numeral of_int_power)
  then have "\<bar>a\<bar> < 2 powr 53" by simp
  then have "log 2 \<bar>a\<bar> < 53" using pos by (simp add: log_less_iff)
  then have e52: "e \<le> 52" unfolding e_def by (simp add: floor_le_iff)
  define k where "k = nat (52 - e)"
  have k: "real k = 52 - of_int e" using e52 by (simp add: k_def)
  have "ulp a = 2 powr (- real k)" by (simp add: ulp_def e_def[symmetric] k)
  then have u: "ulp a = 1 / 2 ^ k" by (simp add: powr_minus_divide powr_realpow)
  have "a / ulp a = a * 2 ^ k" unfolding u by simp
  then have "a / ulp a = of_int (n * 2 ^ k)" by (simp add: a_def)
  then have "round_half_even (a / ulp a) = n * 2 ^ k" by (simp only: round_half_even_of_int)
  then have "round_double a = of_int (n * 2 ^ k) * (1 / 2 ^ k)"
    using nz unfolding round_double_def u by simp
  then show ?thesis by (simp add: a_def)
qed

lemma round_double_eval_tie:
  fixes k :: nat and m :: int
  assumes "2 ^ 52 \<le> \<bar>a\<bar> * 2 ^ k" and "\<bar>a\<bar> * 2 ^ k < 2 ^ 53"
    and "a * 2 ^ k = of_int m + 1 / 2 \<or> a * 2 ^ k = of_int m - 1 / 2"
    and "even m" and "r = of_int m / 2 ^ k"
  shows "round_double a = r"
proof -
  have nz: "a \<noteq> 0" using assms(1) by (cases "a = 0") simp_all
  have u: "ulp a = 1 / 2 ^ k" by (rule ulp_eval[OF assms(1,2)])
  define z where "z = a * 2 ^ k"
  have "round_half_even z = m"
  proof -
    from assms(3) consider "z = of_int m + 1 / 2" | "z = of_int m - 1 / 2"
      unfolding z_def by blast
    then show ?thesis
    proof cases
      case 1
      have f: "\<lfloor>z\<rfloor> = m" unfolding 1 by (rule floor_unique) simp_all
      show ?thesis unfolding round_half_even_def f using assms(4) by (simp add: 1)
    next
      case 2
      have f: "\<lfloor>z\<rfloor> = m - 1" unfolding 2 by (rule floor_unique) simp_all
      show ?thesis unfolding round_half_even_def f using assms(4) by (simp add: 2)
    qed
  qed
  then have "round_half_even (a / ulp a) = m" unfolding u z_def by simp
  then show ?thesis using nz by (simp add: round_double_def u assms(5))
qed

lemma round_double_numeral:
  "numeral n < (2::int) ^ 53 \<Longrightarrow> round_double (numeral n) = numeral n"
  "numeral n < (2::int) ^ 53 \<Longrightarrow> round_double (- numeral n) = - numeral n"
  "round_double 0 = 0" "round_double 1 = 1"
  using round_double_of_int[of "numeral n"] round_double_of_int[of "- numeral n"]
    round_double_of_int[of 0] round_double_of_int[of 1]
  by simp_all

lemmas darith = dadd_def dsub_def dmul_def ddiv_def round_double_numeral

lemma round_half_even_nonneg:
  assumes "0 \<le> z"
  shows "0 \<le> round_half_even z"
proof -
  have "0 \<le> \<lfloor>z\<rfloor>" using assms by simp
  then show ?thesis by (auto simp: round_half_even_def)
qed

lemma round_double_range:
  assumes s: "0 < s" "s < 360"
  shows "0 \<le> round_double s" "round_double s \<le> 360"
proof -
  define e where "e = \<lfloor>log 2 \<bar>s\<bar>\<rfloor>"
  have u: "ulp s = 2 powr (of_int e - 52)" by (simp add: ulp_def e_def)
  have "log 2 s < 9"
  proof -
    have "s < 2 powr 9" using s(2) by simp
    then show ?thesis using s(1) by (simp add: log_less_iff)
  qed
  then have e8: "e \<le> 8" using s(1) by (simp add: e_def floor_le_iff)
  define k where "k = nat (52 - e)"
  have k: "real k = 52 - of_int e" using e8 by (simp add: k_def)
  have "360 / ulp s = 360 * 2 powr (52 - of_int e)"
    unfolding u by (simp add: powr_diff)
  also have "(2::real) powr (52 - of_int e) = 2 ^ k"
    unfolding k[symmetric] by (simp add: powr_realpow)
  finally have N: "360 / ulp s = of_int (360 * 2 ^ k)" by simp
  have "s / ulp s \<le> 360 / ulp s" using s(2) ulp_pos[of s] by (simp add: divide_right_mono)
  then have "round_half_even (s / ulp s) \<le> 360 * 2 ^ k"
    unfolding N by (rule round_half_even_le)
  then have "of_int (round_half_even (s / ulp s)) * ulp s \<le> of_int (360 * 2 ^ k) * ulp s"
    using ulp_pos[of s] by (simp only: mult_le_cancel_right_pos of_int_le_iff)
  also have "\<dots> = 360" using N[symmetric] ulp_pos[of s] by simp
  finally show "round_double s \<le> 360" using s(1) by (simp add: round_double_def)
  have "0 \<le> s / ulp s" using s(1) ulp_pos[of s] by simp
  then have "0 \<le> round_half_even (s / ulp s)" by (rule round_half_even_nonneg)
  then show "0 \<le> round_double s" using ulp_pos[of s] by (simp add: round_double_def)
qed

lemma dsub_eq_0_iff: "dsub a b = 0 \<longleftrightarrow> a = b"
  by (simp add: dsub_def round_double_eq_0_iff)



lemma is_double_of_int: "\<bar>n\<bar> < 2 ^ 53 \<Longrightarrow> is_double (of_int n)"
  by (simp add: is_double_def round_double_of_int)

lemma is_double_numeral:
  "numeral n < (2::int) ^ 53 \<Longrightarrow> is_double (numeral n)" "is_double 0"
  by (simp_all add: is_double_def round_double_numeral)

section \<open>Outcodes and the trim step\<close>

lemmas oc_consts = INSIDE_def LEFT_def RIGHT_def BOTTOM_def TOP_def

lemma oc_top: "computeOutCode a b bl tr AND TOP = 0 \<longleftrightarrow> b < py bl \<or> b \<le> py tr"
  by (simp add: computeOutCode_def Let_def oc_consts)

lemma oc_bottom: "computeOutCode a b bl tr AND BOTTOM = 0 \<longleftrightarrow> py bl \<le> b"
  by (simp add: computeOutCode_def Let_def oc_consts)

lemma oc_right: "computeOutCode a b bl tr AND RIGHT = 0 \<longleftrightarrow> a < px bl \<or> a \<le> px tr"
  by (simp add: computeOutCode_def Let_def oc_consts)

lemma oc_left: "computeOutCode a b bl tr AND LEFT = 0 \<longleftrightarrow> px bl \<le> a"
  by (simp add: computeOutCode_def Let_def oc_consts)

lemma oc_zero: "computeOutCode a b bl tr = 0 \<longleftrightarrow> px bl \<le> a \<and> a \<le> px tr \<and> py bl \<le> b \<and> b \<le> py tr"
  by (auto simp add: computeOutCode_def Let_def oc_consts)

lemma oc_and: "computeOutCode a b bl tr AND computeOutCode c d bl tr = 0 \<longleftrightarrow>
   \<not> ((a < px bl \<and> c < px bl) \<or> (\<not> a < px bl \<and> a > px tr \<and> \<not> c < px bl \<and> c > px tr)
   \<or> (b < py bl \<and> d < py bl) \<or> (\<not> b < py bl \<and> b > py tr \<and> \<not> d < py bl \<and> d > py tr))"
  by (simp add: computeOutCode_def Let_def oc_consts)

lemma codes_ok_trim: "codes_ok bl tr s \<Longrightarrow> codes_ok bl tr (trim_step bl tr s)"
  by (simp add: codes_ok_def trim_step_def Let_def split: prod.splits)

lemma codes_ok_init: "codes_ok bl tr (clip_init line bl tr)"
  by (simp add: codes_ok_def clip_init_def)

lemma clip_reach_codes_ok: "clip_reach bl tr line s \<Longrightarrow> codes_ok bl tr s"
  by (induction rule: clip_reach.induct) (simp_all add: codes_ok_init codes_ok_trim)

lemma out_other_differ:
  fixes u w p q lx hx ly hy :: real
  assumes na: "\<not> ((u < lx \<and> p < lx) \<or> (\<not> u < lx \<and> u > hx \<and> \<not> p < lx \<and> p > hx)
     \<or> (w < ly \<and> q < ly) \<or> (\<not> w < ly \<and> w > hy \<and> \<not> q < ly \<and> q > hy))"
    and z: "\<not> (lx \<le> u \<and> u \<le> hx \<and> ly \<le> w \<and> w \<le> hy)"
  shows "\<not> (w < ly \<or> w \<le> hy) \<or> \<not> ly \<le> w \<longrightarrow> q \<noteq> w"
    and "\<not> (u < lx \<or> u \<le> hx) \<or> \<not> lx \<le> u \<longrightarrow> p \<noteq> u"
    and "(w < ly \<or> w \<le> hy) \<and> ly \<le> w \<and> (u < lx \<or> u \<le> hx) \<longrightarrow> \<not> lx \<le> u"
proof -
  from na have 1: "\<not> (w < ly \<and> q < ly)" and 2: "\<not> (\<not> w < ly \<and> w > hy \<and> \<not> q < ly \<and> q > hy)"
    and 3: "\<not> (u < lx \<and> p < lx)" and 4: "\<not> (\<not> u < lx \<and> u > hx \<and> \<not> p < lx \<and> p > hx)"
    by blast+
  show "\<not> (w < ly \<or> w \<le> hy) \<or> \<not> ly \<le> w \<longrightarrow> q \<noteq> w" using 1 2 by auto
  show "\<not> (u < lx \<or> u \<le> hx) \<or> \<not> lx \<le> u \<longrightarrow> p \<noteq> u" using 3 4 by auto
  show "(w < ly \<or> w \<le> hy) \<and> ly \<le> w \<and> (u < lx \<or> u \<le> hx) \<longrightarrow> \<not> lx \<le> u" using z by auto
qed

lemma divisor_nonzero:
  assumes ok: "codes_ok bl tr s" and ne: "\<not> loop_exit s"
  shows "(outcodeOut s AND TOP \<noteq> 0 \<or> outcodeOut s AND BOTTOM \<noteq> 0 \<longrightarrow> y1 s \<noteq> y0 s) \<and>
         (outcodeOut s AND RIGHT \<noteq> 0 \<or> outcodeOut s AND LEFT \<noteq> 0 \<longrightarrow> x1 s \<noteq> x0 s) \<and>
         (outcodeOut s AND TOP = 0 \<and> outcodeOut s AND BOTTOM = 0 \<and> outcodeOut s AND RIGHT = 0
            \<longrightarrow> outcodeOut s AND LEFT \<noteq> 0)"
proof -
  let ?c0 = "computeOutCode (x0 s) (y0 s) bl tr" and ?c1 = "computeOutCode (x1 s) (y1 s) bl tr"
  have c: "outcode0 s = ?c0" "outcode1 s = ?c1" using ok by (simp_all add: codes_ok_def)
  have nz: "?c0 \<noteq> 0 \<or> ?c1 \<noteq> 0" and na: "?c0 AND ?c1 = 0"
    using ne by (simp_all add: loop_exit_def c or_eq_0_iff)
  note na' = na[unfolded oc_and]
  show ?thesis
  proof (cases "outcode0 s = 0")
    case False
    then have out: "outcodeOut s = ?c0" by (simp add: outcodeOut_def c)
    have z: "\<not> (px bl \<le> x0 s \<and> x0 s \<le> px tr \<and> py bl \<le> y0 s \<and> y0 s \<le> py tr)"
      using False by (simp add: c oc_zero)
    note d = out_other_differ[OF na' z]
    show ?thesis unfolding out oc_top oc_bottom oc_right oc_left using d by blast
  next
    case True
    then have out: "outcodeOut s = ?c1" by (simp add: outcodeOut_def c)
    have z: "\<not> (px bl \<le> x1 s \<and> x1 s \<le> px tr \<and> py bl \<le> y1 s \<and> y1 s \<le> py tr)"
      using nz True by (simp add: c oc_zero)
    have na'': "\<not> ((x1 s < px bl \<and> x0 s < px bl) \<or>
        (\<not> x1 s < px bl \<and> x1 s > px tr \<and> \<not> x0 s < px bl \<and> x0 s > px tr) \<or>
        (y1 s < py bl \<and> y0 s < py bl) \<or>
        (\<not> y1 s < py bl \<and> y1 s > py tr \<and> \<not> y0 s < py bl \<and> y0 s > py tr))"
      using na' by blast
    note d = out_other_differ[OF na'' z]
    show ?thesis unfolding out oc_top oc_bottom oc_right oc_left using d by metis
  qed
qed

section \<open>The loop of \<open>clipLine\<close>\<close>




text \<open>
  A trim step that leads from a state to a second state and back, neither of them leaving
  the loop: the loop runs for ever.
\<close>

lemma clip_loop_cycle_aux:
  assumes "trim_step bl0 tr0 a = b" and "trim_step bl0 tr0 b = a"
    and "\<not> loop_exit a" and "\<not> loop_exit b"
  shows "clip_loop bl tr s = Some r \<Longrightarrow> bl = bl0 \<and> tr = tr0 \<longrightarrow> (s = a \<or> s = b) \<longrightarrow> False"
proof (erule clip_loop.raw_induct[rotated], goal_cases)
  case (1 loop bl tr s r)
  show ?case
  proof (intro impI)
    assume e: "bl = bl0 \<and> tr = tr0" and s: "s = a \<or> s = b"
    from s assms(3,4) have ne: "\<not> loop_exit s" by blast
    then have st: "loop bl tr (trim_step bl tr s) = Some r"
      using 1(2) by (simp add: loop_exit_def split: if_splits)
    from s assms(1,2) e have "trim_step bl tr s = a \<or> trim_step bl tr s = b" by blast
    with 1(1)[OF st] e show False by blast
  qed
qed

lemma clip_loop_cycle:
  assumes "trim_step bl tr a = b" and "trim_step bl tr b = a"
    and "\<not> loop_exit a" and "\<not> loop_exit b"
  shows "clip_loop bl tr a = None"
proof (cases "clip_loop bl tr a")
  case None then show ?thesis .
next
  case (Some r)
  from clip_loop_cycle_aux[OF assms Some] show ?thesis by simp
qed

section \<open>The loops of the generation\<close>



lemma for_loop_append:
  assumes body: "\<And>v acc. body v acc = Some (acc @ g v)"
  shows "(\<forall>j<n. cond ((incr ^^ j) v)) \<Longrightarrow> \<not> cond ((incr ^^ n) v) \<Longrightarrow>
    for_loop cond incr body v acc = Some (acc @ concat (map (\<lambda>j. g ((incr ^^ j) v)) [0..<n]))"
proof (induction n arbitrary: v acc)
  case 0
  then show ?case by (subst for_loop.simps) simp
next
  case (Suc n)
  have c0: "cond v" using Suc.prems(1) by force
  have a: "\<forall>j<n. cond ((incr ^^ j) (incr v))"
  proof (intro allI impI)
    fix j assume "j < n"
    then have "cond ((incr ^^ Suc j) v)" using Suc.prems(1) by blast
    then show "cond ((incr ^^ j) (incr v))" by (simp add: funpow_swap1)
  qed
  have b: "\<not> cond ((incr ^^ n) (incr v))" using Suc.prems(2) by (simp add: funpow_swap1)
  have "for_loop cond incr body v acc = for_loop cond incr body (incr v) (acc @ g v)"
    using c0 by (subst for_loop.simps) (simp add: body)
  also have "\<dots> = Some ((acc @ g v) @ concat (map (\<lambda>j. g ((incr ^^ j) (incr v))) [0..<n]))"
    by (rule Suc.IH[OF a b])
  also have "(acc @ g v) @ concat (map (\<lambda>j. g ((incr ^^ j) (incr v))) [0..<n])
      = acc @ concat (map (\<lambda>j. g ((incr ^^ j) v)) [0..<Suc n])"
    by (simp add: map_upt_Suc funpow_swap1 del: upt_Suc)
  finally show ?case .
qed

lemma concat_map_single: "concat (map (\<lambda>j. [f j]) xs) = map f xs"
  by (induction xs) simp_all

lemma for_loop_None_aux:
  assumes body: "\<And>v acc. \<exists>acc'. b v acc = Some acc'"
  shows "for_loop cond incr body v acc = Some r \<Longrightarrow>
           cond = c \<and> incr = f \<and> body = b \<longrightarrow> (\<forall>j. c ((f ^^ j) v)) \<longrightarrow> False"
proof (erule for_loop.raw_induct[rotated], goal_cases)
  case (1 loop cond incr body v acc r)
  show ?case
  proof (intro impI)
    assume e: "cond = c \<and> incr = f \<and> body = b" and a: "\<forall>j. c ((f ^^ j) v)"
    from a have c0: "c v" by (metis funpow_0)
    obtain acc' where acc': "b v acc = Some acc'" using body by blast
    have l: "loop c f b (f v) acc' = Some r" using 1(2) e c0 acc' by simp
    have "\<forall>j. c ((f ^^ j) (f v))"
    proof
      fix j
      from a have "c ((f ^^ Suc j) v)" by blast
      then show "c ((f ^^ j) (f v))" by (simp add: funpow_swap1)
    qed
    with 1(1)[OF l] show False by blast
  qed
qed

lemma for_loop_None:
  assumes "\<And>v acc. \<exists>acc'. b v acc = Some acc'" and "\<forall>j. c ((f ^^ j) v)"
  shows "for_loop c f b v acc = None"
proof (cases "for_loop c f b v acc")
  case None
  then show ?thesis .
next
  case (Some r)
  have "c = c \<and> f = f \<and> b = b \<longrightarrow> (\<forall>j. c ((f ^^ j) v)) \<longrightarrow> False"
  proof (rule for_loop_None_aux)
    show "\<And>v acc. \<exists>acc'. b v acc = Some acc'" by (rule assms(1))
    show "for_loop c f b v acc = Some r" by (rule Some)
  qed
  with assms(2) show ?thesis by blast
qed

lemma main_body_lines:
  "0 < step \<Longrightarrow>
   map_option hatchLines (main_body lib bl tr a step) = generate lib bl tr (normalize_angle a) step"
  by (simp add: main_body_def option.map_comp comp_def option.map_ident)


lemma funpow_dadd_int:
  "\<bar>a\<bar> + int j * \<bar>s\<bar> < 2 ^ 53 \<Longrightarrow>
   ((\<lambda>v. dadd v (of_int s)) ^^ j) (of_int a) = of_int (a + int j * s)"
proof (induction j)
  case 0
  then show ?case by simp
next
  case (Suc j)
  have "\<bar>a\<bar> + int j * \<bar>s\<bar> \<le> \<bar>a\<bar> + int (Suc j) * \<bar>s\<bar>" by (simp add: algebra_simps)
  with Suc have ih: "((\<lambda>v. dadd v (of_int s)) ^^ j) (of_int a) = of_int (a + int j * s)" by simp
  have "\<bar>a + int (Suc j) * s\<bar> \<le> \<bar>a\<bar> + \<bar>int (Suc j) * s\<bar>" by (rule abs_triangle_ineq)
  also have "\<bar>int (Suc j) * s\<bar> = int (Suc j) * \<bar>s\<bar>" by (simp add: abs_mult)
  finally have b: "\<bar>a + int (Suc j) * s\<bar> < 2 ^ 53" using Suc.prems by simp
  have "dadd (of_int (a + int j * s)) (of_int s) = round_double (of_int (a + int (Suc j) * s))"
    by (simp add: dadd_def algebra_simps)
  also have "\<dots> = of_int (a + int (Suc j) * s)" by (rule round_double_of_int[OF b])
  finally show ?case by (simp add: ih)
qed

lemma generate_horizontal_up:
  assumes a: "a = 0 \<or> a = 360"
    and n: "\<forall>j<n. ((\<lambda>v. dadd v step) ^^ j) (py bl) \<le> py tr"
           "\<not> ((\<lambda>v. dadd v step) ^^ n) (py bl) \<le> py tr"
  shows "generate lib bl tr a step =
           Some (map (\<lambda>j. horizontal_line bl tr (((\<lambda>v. dadd v step) ^^ j) (py bl))) [0..<n])"
proof -
  have g: "generate lib bl tr a step =
      for_loop (\<lambda>v. v \<le> py tr) (\<lambda>v. dadd v step)
          (\<lambda>v hatchLines. Some (hatchLines @ [horizontal_line bl tr v])) (py bl) []"
    using a by (auto simp: generate_def Let_def)
  show ?thesis unfolding g
    by (subst for_loop_append[where g = "\<lambda>v. [horizontal_line bl tr v]" and n = n])
       (simp_all add: n concat_map_single)
qed

lemma generate_horizontal_down:
  assumes a: "a = 180 \<or> a = - 180"
    and n: "\<forall>j<n. ((\<lambda>v. dsub v step) ^^ j) (py tr) \<ge> py bl"
           "\<not> ((\<lambda>v. dsub v step) ^^ n) (py tr) \<ge> py bl"
  shows "generate lib bl tr a step =
           Some (map (\<lambda>j. horizontal_line bl tr (((\<lambda>v. dsub v step) ^^ j) (py tr))) [0..<n])"
proof -
  have g: "generate lib bl tr a step =
      for_loop (\<lambda>v. v \<ge> py bl) (\<lambda>v. dsub v step)
          (\<lambda>v hatchLines. Some (hatchLines @ [horizontal_line bl tr v])) (py tr) []"
    using a by (auto simp: generate_def Let_def)
  show ?thesis unfolding g
    by (subst for_loop_append[where g = "\<lambda>v. [horizontal_line bl tr v]" and n = n])
       (simp_all add: n concat_map_single)
qed

lemma generate_horizontal_never:
  assumes a: "a = 0 \<or> a = 360"
    and n: "\<forall>j. ((\<lambda>v. dadd v step) ^^ j) (py bl) \<le> py tr"
  shows "generate lib bl tr a step = None"
proof -
  have g: "generate lib bl tr a step =
      for_loop (\<lambda>v. v \<le> py tr) (\<lambda>v. dadd v step)
          (\<lambda>v hatchLines. Some (hatchLines @ [horizontal_line bl tr v])) (py bl) []"
    using a by (auto simp: generate_def Let_def)
  show ?thesis unfolding g by (rule for_loop_None) (simp_all add: n)
qed

section \<open>Normalisation of the angle\<close>

lemma fmod_range:
  assumes "0 < b"
  shows "\<bar>fmod a b\<bar> < b" and "0 \<le> a \<Longrightarrow> 0 \<le> fmod a b" and "a < 0 \<Longrightarrow> fmod a b \<le> 0"
proof -
  have q: "a = a / b * b" using assms by simp
  show "\<bar>fmod a b\<bar> < b"
  proof (cases "0 \<le> a / b")
    case True
    have "a / b - of_int \<lfloor>a / b\<rfloor> < 1" "0 \<le> a / b - of_int \<lfloor>a / b\<rfloor>" by linarith+
    then have "(a / b - of_int \<lfloor>a / b\<rfloor>) * b < 1 * b" "0 \<le> (a / b - of_int \<lfloor>a / b\<rfloor>) * b"
      using assms by (simp_all)
    then show ?thesis using True assms by (simp add: fmod_def left_diff_distrib)
  next
    case False
    have "of_int \<lceil>a / b\<rceil> - a / b < 1" "0 \<le> of_int \<lceil>a / b\<rceil> - a / b" by linarith+
    then have "(of_int \<lceil>a / b\<rceil> - a / b) * b < 1 * b" "0 \<le> (of_int \<lceil>a / b\<rceil> - a / b) * b"
      using assms by (simp_all)
    then show ?thesis using False assms by (simp add: fmod_def left_diff_distrib)
  qed
  show "0 \<le> fmod a b" if "0 \<le> a"
  proof -
    have "0 \<le> a / b" using that assms by simp
    moreover have "0 \<le> (a / b - of_int \<lfloor>a / b\<rfloor>) * b"
      using assms by (intro mult_nonneg_nonneg) (linarith, simp)
    ultimately show ?thesis using assms by (simp add: fmod_def left_diff_distrib)
  qed
  show "fmod a b \<le> 0" if "a < 0"
  proof -
    have "\<not> 0 \<le> a / b" using that assms by (simp add: divide_less_0_iff not_le)
    moreover have "0 \<le> (of_int \<lceil>a / b\<rceil> - a / b) * b"
      using assms by (intro mult_nonneg_nonneg) (linarith, simp)
    ultimately show ?thesis using assms by (simp add: fmod_def left_diff_distrib)
  qed
qed

lemma fmod_small: "0 \<le> a \<Longrightarrow> a < b \<Longrightarrow> fmod a b = a"
proof -
  assume a: "0 \<le> a" "a < b"
  then have "0 \<le> a / b" "a / b < 1" by simp_all
  then have "\<lfloor>a / b\<rfloor> = 0" by (simp add: floor_eq_iff)
  with \<open>0 \<le> a / b\<close> show ?thesis by (simp add: fmod_def)
qed

lemma normalize_angle_small: "0 \<le> a \<Longrightarrow> a < 360 \<Longrightarrow> normalize_angle a = a"
  by (simp add: normalize_angle_def fmod_small)

lemma fmod_plus_turns:
  assumes "0 \<le> a" and "a < 360"
  shows "fmod (a + 360 * of_int k) 360 = (if 0 \<le> k \<or> a = 0 then a else a - 360)"
proof -
  define q where "q = (a + 360 * of_int k) / 360"
  have q: "q = a / 360 + of_int k" unfolding q_def by (simp add: add_divide_distrib)
  have r: "0 \<le> a / 360" "a / 360 < 1" using assms by simp_all
  show ?thesis
  proof (cases "0 \<le> k")
    case True
    then have "0 \<le> q" unfolding q using r(1) by simp
    moreover have "\<lfloor>q\<rfloor> = k" unfolding q using r by (intro floor_unique) simp_all
    ultimately show ?thesis using True unfolding fmod_def q_def[symmetric] by simp
  next
    case False
    then have k: "k \<le> - 1" by simp
    show ?thesis
    proof (cases "a = 0")
      case True
      then have "q = of_int k" unfolding q by simp
      then show ?thesis using True k unfolding fmod_def q_def[symmetric] by simp
    next
      case nz: False
      have "of_int k \<le> (- 1 :: real)" using k by (metis of_int_le_iff of_int_minus of_int_1)
      then have "\<not> 0 \<le> q" unfolding q using r(2) by simp
      moreover have "\<lceil>q\<rceil> = k + 1" unfolding q using r nz assms(1)
        by (intro ceiling_unique) simp_all
      ultimately show ?thesis using False nz unfolding fmod_def q_def[symmetric]
        by (simp add: algebra_simps)
    qed
  qed
qed

lemma normalize_angle_plus_turns:
  assumes "0 \<le> a" and "a < 360" and "is_double a"
  shows "normalize_angle (a + 360 * of_int k) = a"
proof (cases "0 \<le> k \<or> a = 0")
  case True
  then show ?thesis using assms(1) by (simp add: normalize_angle_def fmod_plus_turns[OF assms(1,2)])
next
  case False
  have "dadd (a - 360) 360 = a" using assms(3) by (simp add: dadd_def is_double_def)
  then show ?thesis using False assms(1,2)
    by (simp add: normalize_angle_def fmod_plus_turns[OF assms(1,2)])
qed

section \<open>Runs computed rounding by rounding\<close>

subsection \<open>The square \<open>(0,0)-(2,2)\<close> with step 2 at the angles 45 and 225\<close>

text \<open>
  Every rounding of the two runs: the radians, the diagonal, the centre, the offsets, the
  candidate lines and the trim steps of \<open>clipLine\<close>.
\<close>

lemma nearest_libm_pi: "lib_pi nearest_libm = 884279719003555 / 281474976710656"
  by (simp add: nearest_libm_def)

lemma sq_r1: "dmul 45 (884279719003555 / 281474976710656) = 4974073419394997 / 35184372088832"
  unfolding dmul_def by (rule round_double_eval[where k = 45 and m = 4974073419394997]) simp_all

lemma sq_r2: "ddiv (4974073419394997 / 35184372088832) 180 = 884279719003555 / 1125899906842624"
  unfolding ddiv_def by (rule round_double_eval[where k = 53 and m = 7074237752028440]) simp_all

lemma sq_r3: "dsub 2 0 = 2"
  unfolding dsub_def by (rule round_double_eval[where k = 51 and m = 4503599627370496]) simp_all

lemma sq_r4: "dmul 2 2 = 4"
  unfolding dmul_def by (rule round_double_eval[where k = 50 and m = 4503599627370496]) simp_all

lemma sq_r5: "dadd 4 4 = 8"
  unfolding dadd_def by (rule round_double_eval[where k = 49 and m = 4503599627370496]) simp_all

lemma sq_r6: "dadd 0 2 = 2"
  unfolding dadd_def by (rule round_double_eval[where k = 51 and m = 4503599627370496]) simp_all

lemma sq_r7: "ddiv 2 2 = 1"
  unfolding ddiv_def by (rule round_double_eval[where k = 52 and m = 4503599627370496]) simp_all

lemma sq_r8: "ddiv (- (6369051672525773 / 2251799813685248)) 2 = - (6369051672525773 / 4503599627370496)"
  unfolding ddiv_def by (rule round_double_eval[where k = 52 and m = "- 6369051672525773"]) simp_all

lemma sq_r9: "ddiv (6369051672525773 / 2251799813685248) 2 = 6369051672525773 / 4503599627370496"
  unfolding ddiv_def by (rule round_double_eval[where k = 52 and m = 6369051672525773]) simp_all

lemma sq_r10: "dmul (- (1592262918131443 / 2251799813685248)) (- (6369051672525773 / 4503599627370496)) = 1"
  unfolding dmul_def by (rule round_double_eval[where k = 53 and m = 9007199254740992]) simp_all

lemma sq_r11: "dadd 1 1 = 2"
  unfolding dadd_def by (rule round_double_eval[where k = 51 and m = 4503599627370496]) simp_all

lemma sq_r12: "dmul (6369051672525773 / 9007199254740992) (6369051672525773 / 2251799813685248) = 4503599627370497 / 2251799813685248"
  unfolding dmul_def by (rule round_double_eval[where k = 51 and m = 4503599627370497]) simp_all

lemma sq_r13: "ddiv (4503599627370497 / 2251799813685248) 2 = 4503599627370497 / 4503599627370496"
  unfolding ddiv_def by (rule round_double_eval[where k = 52 and m = 4503599627370497]) simp_all

lemma sq_r14: "dmul (6369051672525773 / 9007199254740992) (- (6369051672525773 / 4503599627370496)) = - (4503599627370497 / 4503599627370496)"
  unfolding dmul_def by (rule round_double_eval[where k = 52 and m = "- 4503599627370497"]) simp_all

lemma sq_r15: "dadd 1 (- (4503599627370497 / 4503599627370496)) = - (1 / 4503599627370496)"
  unfolding dadd_def by (rule round_double_eval[where k = 104 and m = "- 4503599627370496"]) simp_all

lemma sq_r16: "dmul (1592262918131443 / 2251799813685248) (6369051672525773 / 2251799813685248) = 2"
  unfolding dmul_def by (rule round_double_eval[where k = 52 and m = 9007199254740992]) simp_all

lemma sq_r17: "dsub 2 (4503599627370497 / 4503599627370496) = 4503599627370495 / 4503599627370496"
  unfolding dsub_def by (rule round_double_eval[where k = 53 and m = 9007199254740990]) simp_all

lemma sq_r18: "dsub (- (1 / 4503599627370496)) 1 = - (4503599627370497 / 4503599627370496)"
  unfolding dsub_def by (rule round_double_eval[where k = 52 and m = "- 4503599627370497"]) simp_all

lemma sq_r19: "dadd 2 (4503599627370497 / 4503599627370496) = 3"
  unfolding dadd_def by (rule round_double_eval_tie[where k = 51 and m = 6755399441055744]) simp_all

lemma sq_r20: "dadd (- (1 / 4503599627370496)) 1 = 4503599627370495 / 4503599627370496"
  unfolding dadd_def by (rule round_double_eval[where k = 53 and m = 9007199254740990]) simp_all

lemma sq_r21: "dsub 3 (4503599627370495 / 4503599627370496) = 2"
  unfolding dsub_def by (rule round_double_eval_tie[where k = 51 and m = 4503599627370496]) simp_all

lemma sq_r22: "dsub 0 (- (4503599627370497 / 4503599627370496)) = 4503599627370497 / 4503599627370496"
  unfolding dsub_def by (rule round_double_eval[where k = 52 and m = 4503599627370497]) simp_all

lemma sq_r23: "dmul 2 (4503599627370497 / 4503599627370496) = 4503599627370497 / 2251799813685248"
  unfolding dmul_def by (rule round_double_eval[where k = 51 and m = 4503599627370497]) simp_all

lemma sq_r24: "dsub (4503599627370495 / 4503599627370496) (- (4503599627370497 / 4503599627370496)) = 2"
  unfolding dsub_def by (rule round_double_eval[where k = 51 and m = 4503599627370496]) simp_all

lemma sq_r25: "dadd (4503599627370495 / 4503599627370496) (4503599627370497 / 4503599627370496) = 2"
  unfolding dadd_def by (rule round_double_eval[where k = 51 and m = 4503599627370496]) simp_all

lemma sq_r26: "dsub (4503599627370495 / 4503599627370496) 0 = 4503599627370495 / 4503599627370496"
  unfolding dsub_def by (rule round_double_eval[where k = 53 and m = 9007199254740990]) simp_all

lemma sq_r27: "dsub 2 2 = 0"
  unfolding dsub_def by (simp add: round_double_def)

lemma sq_r28: "dmul (4503599627370495 / 4503599627370496) 0 = 0"
  unfolding dmul_def by (simp add: round_double_def)

lemma sq_r29: "dsub 3 2 = 1"
  unfolding dsub_def by (rule round_double_eval[where k = 52 and m = 4503599627370496]) simp_all

lemma sq_r30: "ddiv 0 1 = 0"
  unfolding ddiv_def by (simp add: round_double_def)

lemma sq_r31: "dadd 0 0 = 0"
  unfolding dadd_def by (simp add: round_double_def)

lemma sq_r32: "dadd (- (6369051672525773 / 4503599627370496)) 2 = 2638147582215219 / 4503599627370496"
  unfolding dadd_def by (rule round_double_eval[where k = 53 and m = 5276295164430438]) simp_all

lemma sq_r33: "dmul (- (1592262918131443 / 2251799813685248)) (2638147582215219 / 4503599627370496) = - (466363011288819 / 1125899906842624)"
  unfolding dmul_def by (rule round_double_eval[where k = 54 and m = "- 7461808180621104"]) simp_all

lemma sq_r34: "dadd 1 (- (466363011288819 / 1125899906842624)) = 659536895553805 / 1125899906842624"
  unfolding dadd_def by (rule round_double_eval[where k = 53 and m = 5276295164430440]) simp_all

lemma sq_r35: "dmul (6369051672525773 / 9007199254740992) (2638147582215219 / 4503599627370496) = 3730904090310553 / 9007199254740992"
  unfolding dmul_def by (rule round_double_eval[where k = 54 and m = 7461808180621106]) simp_all

lemma sq_r36: "dadd 1 (3730904090310553 / 9007199254740992) = 1592262918131443 / 1125899906842624"
  unfolding dadd_def by (rule round_double_eval_tie[where k = 52 and m = 6369051672525772]) simp_all

lemma sq_r37: "dsub (659536895553805 / 1125899906842624) (4503599627370497 / 4503599627370496) = - (1865452045155277 / 4503599627370496)"
  unfolding dsub_def by (rule round_double_eval[where k = 54 and m = "- 7461808180621108"]) simp_all

lemma sq_r38: "dsub (1592262918131443 / 1125899906842624) 1 = 466363011288819 / 1125899906842624"
  unfolding dsub_def by (rule round_double_eval[where k = 54 and m = 7461808180621104]) simp_all

lemma sq_r39: "dadd (659536895553805 / 1125899906842624) (4503599627370497 / 4503599627370496) = 7141747209585717 / 4503599627370496"
  unfolding dadd_def by (rule round_double_eval[where k = 52 and m = 7141747209585717]) simp_all

lemma sq_r40: "dadd (1592262918131443 / 1125899906842624) 1 = 2718162824974067 / 1125899906842624"
  unfolding dadd_def by (rule round_double_eval[where k = 51 and m = 5436325649948134]) simp_all

lemma sq_r41: "dsub (2718162824974067 / 1125899906842624) (466363011288819 / 1125899906842624) = 2"
  unfolding dsub_def by (rule round_double_eval[where k = 51 and m = 4503599627370496]) simp_all

lemma sq_r42: "dsub 0 (- (1865452045155277 / 4503599627370496)) = 1865452045155277 / 4503599627370496"
  unfolding dsub_def by (rule round_double_eval[where k = 54 and m = 7461808180621108]) simp_all

lemma sq_r43: "dmul 2 (1865452045155277 / 4503599627370496) = 1865452045155277 / 2251799813685248"
  unfolding dmul_def by (rule round_double_eval[where k = 53 and m = 7461808180621108]) simp_all

lemma sq_r44: "dsub (7141747209585717 / 4503599627370496) (- (1865452045155277 / 4503599627370496)) = 4503599627370497 / 2251799813685248"
  unfolding dsub_def by (rule round_double_eval[where k = 51 and m = 4503599627370497]) simp_all

lemma sq_r45: "ddiv (1865452045155277 / 2251799813685248) (4503599627370497 / 2251799813685248) = 3730904090310553 / 9007199254740992"
  unfolding ddiv_def by (rule round_double_eval[where k = 54 and m = 7461808180621106]) simp_all

lemma sq_r46: "dadd (466363011288819 / 1125899906842624) (3730904090310553 / 9007199254740992) = 7461808180621105 / 9007199254740992"
  unfolding dadd_def by (rule round_double_eval[where k = 53 and m = 7461808180621105]) simp_all

lemma sq_r47: "dsub (7141747209585717 / 4503599627370496) 0 = 7141747209585717 / 4503599627370496"
  unfolding dsub_def by (rule round_double_eval[where k = 52 and m = 7141747209585717]) simp_all

lemma sq_r48: "dsub 2 (7461808180621105 / 9007199254740992) = 659536895553805 / 562949953421312"
  unfolding dsub_def by (rule round_double_eval_tie[where k = 52 and m = 5276295164430440]) simp_all

lemma sq_r49: "dmul (7141747209585717 / 4503599627370496) (659536895553805 / 562949953421312) = 4183538656335107 / 2251799813685248"
  unfolding dmul_def by (rule round_double_eval[where k = 52 and m = 8367077312670214]) simp_all

lemma sq_r50: "dsub (2718162824974067 / 1125899906842624) (7461808180621105 / 9007199254740992) = 1785436802396429 / 1125899906842624"
  unfolding dsub_def by (rule round_double_eval_tie[where k = 52 and m = 7141747209585716]) simp_all

lemma sq_r51: "ddiv (4183538656335107 / 2251799813685248) (1785436802396429 / 1125899906842624) = 5276295164430441 / 4503599627370496"
  unfolding ddiv_def by (rule round_double_eval[where k = 52 and m = 5276295164430441]) simp_all

lemma sq_r52: "dadd 0 (5276295164430441 / 4503599627370496) = 5276295164430441 / 4503599627370496"
  unfolding dadd_def by (rule round_double_eval[where k = 52 and m = 5276295164430441]) simp_all

lemma sq_r53: "dadd (2638147582215219 / 4503599627370496) 2 = 2911336709239053 / 1125899906842624"
  unfolding dadd_def by (rule round_double_eval_tie[where k = 51 and m = 5822673418478106]) simp_all

lemma sq_r54: "dmul 225 (884279719003555 / 281474976710656) = 3108795887121873 / 4398046511104"
  unfolding dmul_def by (rule round_double_eval[where k = 43 and m = 6217591774243746]) simp_all

lemma sq_r55: "ddiv (3108795887121873 / 4398046511104) 180 = 4421398595017775 / 1125899906842624"
  unfolding ddiv_def by (rule round_double_eval[where k = 51 and m = 8842797190035550]) simp_all

lemma sq_r56: "dmul (1592262918131443 / 2251799813685248) (- (6369051672525773 / 4503599627370496)) = - 1"
  unfolding dmul_def by (rule round_double_eval[where k = 53 and m = "- 9007199254740992"]) simp_all

lemma sq_r57: "dadd 1 (- 1) = 0"
  unfolding dadd_def by (simp add: round_double_def)

lemma sq_r58: "dmul (- (3184525836262887 / 4503599627370496)) (6369051672525773 / 2251799813685248) = - (4503599627370497 / 2251799813685248)"
  unfolding dmul_def by (rule round_double_eval[where k = 51 and m = "- 4503599627370497"]) simp_all

lemma sq_r59: "ddiv (- (4503599627370497 / 2251799813685248)) 2 = - (4503599627370497 / 4503599627370496)"
  unfolding ddiv_def by (rule round_double_eval[where k = 52 and m = "- 4503599627370497"]) simp_all

lemma sq_r60: "dmul (- (3184525836262887 / 4503599627370496)) (- (6369051672525773 / 4503599627370496)) = 4503599627370497 / 4503599627370496"
  unfolding dmul_def by (rule round_double_eval[where k = 52 and m = 4503599627370497]) simp_all

lemma sq_r61: "dadd 1 (4503599627370497 / 4503599627370496) = 2"
  unfolding dadd_def by (rule round_double_eval_tie[where k = 51 and m = 4503599627370496]) simp_all

lemma sq_r62: "dmul (- (1592262918131443 / 2251799813685248)) (6369051672525773 / 2251799813685248) = - 2"
  unfolding dmul_def by (rule round_double_eval[where k = 52 and m = "- 9007199254740992"]) simp_all

lemma sq_r63: "ddiv (- 2) 2 = - 1"
  unfolding ddiv_def by (rule round_double_eval[where k = 52 and m = "- 4503599627370496"]) simp_all

lemma sq_r64: "dsub 2 (- 1) = 3"
  unfolding dsub_def by (rule round_double_eval[where k = 51 and m = 6755399441055744]) simp_all

lemma sq_r65: "dadd 0 (- (4503599627370497 / 4503599627370496)) = - (4503599627370497 / 4503599627370496)"
  unfolding dadd_def by (rule round_double_eval[where k = 52 and m = "- 4503599627370497"]) simp_all

lemma sq_r66: "dadd 2 (- 1) = 1"
  unfolding dadd_def by (rule round_double_eval[where k = 52 and m = 4503599627370496]) simp_all

lemma sq_r67: "dsub (- (4503599627370497 / 4503599627370496)) (4503599627370497 / 4503599627370496) = - (4503599627370497 / 2251799813685248)"
  unfolding dsub_def by (rule round_double_eval[where k = 51 and m = "- 4503599627370497"]) simp_all

lemma sq_r68: "dsub 2 3 = - 1"
  unfolding dsub_def by (rule round_double_eval[where k = 52 and m = "- 4503599627370496"]) simp_all

lemma sq_r69: "dmul (- (4503599627370497 / 2251799813685248)) (- 1) = 4503599627370497 / 2251799813685248"
  unfolding dmul_def by (rule round_double_eval[where k = 51 and m = 4503599627370497]) simp_all

lemma sq_r70: "dsub 1 3 = - 2"
  unfolding dsub_def by (rule round_double_eval[where k = 51 and m = "- 4503599627370496"]) simp_all

lemma sq_r71: "ddiv (4503599627370497 / 2251799813685248) (- 2) = - (4503599627370497 / 4503599627370496)"
  unfolding ddiv_def by (rule round_double_eval[where k = 52 and m = "- 4503599627370497"]) simp_all

lemma sq_r72: "dadd (4503599627370497 / 4503599627370496) (- (4503599627370497 / 4503599627370496)) = 0"
  unfolding dadd_def by (simp add: round_double_def)

lemma sq_r73: "dsub 1 2 = - 1"
  unfolding dsub_def by (rule round_double_eval[where k = 52 and m = "- 4503599627370496"]) simp_all

lemma sq_r74: "dsub 0 0 = 0"
  unfolding dsub_def by (simp add: round_double_def)

lemma sq_r75: "dmul (- 1) 0 = 0"
  unfolding dmul_def by (simp add: round_double_def)

lemma sq_r76: "dsub (- (4503599627370497 / 4503599627370496)) 0 = - (4503599627370497 / 4503599627370496)"
  unfolding dsub_def by (rule round_double_eval[where k = 52 and m = "- 4503599627370497"]) simp_all

lemma sq_r77: "ddiv 0 (- (4503599627370497 / 4503599627370496)) = 0"
  unfolding ddiv_def by (simp add: round_double_def)

lemma sq_r78: "dadd 2 0 = 2"
  unfolding dadd_def by (rule round_double_eval[where k = 51 and m = 4503599627370496]) simp_all

lemma sq_r79: "dmul (1592262918131443 / 2251799813685248) (2638147582215219 / 4503599627370496) = 466363011288819 / 1125899906842624"
  unfolding dmul_def by (rule round_double_eval[where k = 54 and m = 7461808180621104]) simp_all

lemma sq_r80: "dadd 1 (466363011288819 / 1125899906842624) = 1592262918131443 / 1125899906842624"
  unfolding dadd_def by (rule round_double_eval[where k = 52 and m = 6369051672525772]) simp_all

lemma sq_r81: "dmul (- (3184525836262887 / 4503599627370496)) (2638147582215219 / 4503599627370496) = - (7461808180621107 / 18014398509481984)"
  unfolding dmul_def by (rule round_double_eval[where k = 54 and m = "- 7461808180621107"]) simp_all

lemma sq_r82: "dadd 1 (- (7461808180621107 / 18014398509481984)) = 2638147582215219 / 4503599627370496"
  unfolding dadd_def by (rule round_double_eval_tie[where k = 53 and m = 5276295164430438]) simp_all

lemma sq_r83: "dsub (1592262918131443 / 1125899906842624) (- (4503599627370497 / 4503599627370496)) = 2718162824974067 / 1125899906842624"
  unfolding dsub_def by (rule round_double_eval_tie[where k = 51 and m = 5436325649948134]) simp_all

lemma sq_r84: "dsub (2638147582215219 / 4503599627370496) (- 1) = 7141747209585715 / 4503599627370496"
  unfolding dsub_def by (rule round_double_eval[where k = 52 and m = 7141747209585715]) simp_all

lemma sq_r85: "dadd (1592262918131443 / 1125899906842624) (- (4503599627370497 / 4503599627370496)) = 1865452045155275 / 4503599627370496"
  unfolding dadd_def by (rule round_double_eval[where k = 54 and m = 7461808180621100]) simp_all

lemma sq_r86: "dadd (2638147582215219 / 4503599627370496) (- 1) = - (1865452045155277 / 4503599627370496)"
  unfolding dadd_def by (rule round_double_eval[where k = 54 and m = "- 7461808180621108"]) simp_all

lemma sq_r87: "dsub (- (1865452045155277 / 4503599627370496)) (7141747209585715 / 4503599627370496) = - 2"
  unfolding dsub_def by (rule round_double_eval[where k = 51 and m = "- 4503599627370496"]) simp_all

lemma sq_r88: "dsub 2 (2718162824974067 / 1125899906842624) = - (466363011288819 / 1125899906842624)"
  unfolding dsub_def by (rule round_double_eval[where k = 54 and m = "- 7461808180621104"]) simp_all

lemma sq_r89: "dmul (- 2) (- (466363011288819 / 1125899906842624)) = 466363011288819 / 562949953421312"
  unfolding dmul_def by (rule round_double_eval[where k = 53 and m = 7461808180621104]) simp_all

lemma sq_r90: "dsub (1865452045155275 / 4503599627370496) (2718162824974067 / 1125899906842624) = - 2"
  unfolding dsub_def by (rule round_double_eval_tie[where k = 51 and m = "- 4503599627370496"]) simp_all

lemma sq_r91: "ddiv (466363011288819 / 562949953421312) (- 2) = - (466363011288819 / 1125899906842624)"
  unfolding ddiv_def by (rule round_double_eval[where k = 54 and m = "- 7461808180621104"]) simp_all

lemma sq_r92: "dadd (7141747209585715 / 4503599627370496) (- (466363011288819 / 1125899906842624)) = 5276295164430439 / 4503599627370496"
  unfolding dadd_def by (rule round_double_eval[where k = 52 and m = 5276295164430439]) simp_all

lemma sq_r93: "dsub (1865452045155275 / 4503599627370496) 2 = - (7141747209585717 / 4503599627370496)"
  unfolding dsub_def by (rule round_double_eval[where k = 52 and m = "- 7141747209585717"]) simp_all

lemma sq_r94: "dsub 0 (5276295164430439 / 4503599627370496) = - (5276295164430439 / 4503599627370496)"
  unfolding dsub_def by (rule round_double_eval[where k = 52 and m = "- 5276295164430439"]) simp_all

lemma sq_r95: "dmul (- (7141747209585717 / 4503599627370496)) (- (5276295164430439 / 4503599627370496)) = 2091769328167553 / 1125899906842624"
  unfolding dmul_def by (rule round_double_eval[where k = 52 and m = 8367077312670212]) simp_all

lemma sq_r96: "dsub (- (1865452045155277 / 4503599627370496)) (5276295164430439 / 4503599627370496) = - (1785436802396429 / 1125899906842624)"
  unfolding dsub_def by (rule round_double_eval[where k = 52 and m = "- 7141747209585716"]) simp_all

lemma sq_r97: "ddiv (2091769328167553 / 1125899906842624) (- (1785436802396429 / 1125899906842624)) = - (5276295164430439 / 4503599627370496)"
  unfolding ddiv_def by (rule round_double_eval[where k = 52 and m = "- 5276295164430439"]) simp_all

lemma sq_r98: "dadd 2 (- (5276295164430439 / 4503599627370496)) = 3730904090310553 / 4503599627370496"
  unfolding dadd_def by (rule round_double_eval[where k = 53 and m = 7461808180621106]) simp_all

lemmas sq_rounds =
  sq_r1 sq_r2 sq_r3 sq_r4 sq_r5 sq_r6 sq_r7 sq_r8
  sq_r9 sq_r10 sq_r11 sq_r12 sq_r13 sq_r14 sq_r15 sq_r16
  sq_r17 sq_r18 sq_r19 sq_r20 sq_r21 sq_r22 sq_r23 sq_r24
  sq_r25 sq_r26 sq_r27 sq_r28 sq_r29 sq_r30 sq_r31 sq_r32
  sq_r33 sq_r34 sq_r35 sq_r36 sq_r37 sq_r38 sq_r39 sq_r40
  sq_r41 sq_r42 sq_r43 sq_r44 sq_r45 sq_r46 sq_r47 sq_r48
  sq_r49 sq_r50 sq_r51 sq_r52 sq_r53 sq_r54 sq_r55 sq_r56
  sq_r57 sq_r58 sq_r59 sq_r60 sq_r61 sq_r62 sq_r63 sq_r64
  sq_r65 sq_r66 sq_r67 sq_r68 sq_r69 sq_r70 sq_r71 sq_r72
  sq_r73 sq_r74 sq_r75 sq_r76 sq_r77 sq_r78 sq_r79 sq_r80
  sq_r81 sq_r82 sq_r83 sq_r84 sq_r85 sq_r86 sq_r87 sq_r88
  sq_r89 sq_r90 sq_r91 sq_r92 sq_r93 sq_r94 sq_r95 sq_r96
  sq_r97 sq_r98

lemma sq_sqrt: "dsqrt 8 = 6369051672525773 / 2251799813685248"
proof -
  define x :: real where "x = sqrt 8"
  have lo: "12738103345051545 / 4503599627370496 < x" unfolding x_def by (rule real_less_rsqrt) (simp add: power2_eq_square)
  have hi: "x < 12738103345051547 / 4503599627370496" unfolding x_def by (rule real_less_lsqrt) (simp_all add: power2_eq_square)
  have "round_double x = 6369051672525773 / 2251799813685248"
    by (rule round_double_eval[where k = 51 and m = 6369051672525773]) (use lo hi in simp_all)
  then show ?thesis unfolding dsqrt_def x_def .
qed

lemma sq_cand_45_0:
  "candidate_line nearest_libm \<lparr> px = 1, py = 1 \<rparr> (884279719003555 / 1125899906842624) (6369051672525773 / 2251799813685248) (- (6369051672525773 / 4503599627370496)) =
     \<lparr> start = \<lparr> px = 4503599627370495 / 4503599627370496, py = - (4503599627370497 / 4503599627370496) \<rparr>,
         endp = \<lparr> px = 3, py = 4503599627370495 / 4503599627370496 \<rparr> \<rparr>"
  by (simp add: candidate_line_def Let_def nearest_libm_def sq_rounds)

lemma sq_cand_45_1:
  "candidate_line nearest_libm \<lparr> px = 1, py = 1 \<rparr> (884279719003555 / 1125899906842624) (6369051672525773 / 2251799813685248) (2638147582215219 / 4503599627370496) =
     \<lparr> start = \<lparr> px = - (1865452045155277 / 4503599627370496), py = 466363011288819 / 1125899906842624 \<rparr>,
         endp = \<lparr> px = 7141747209585717 / 4503599627370496, py = 2718162824974067 / 1125899906842624 \<rparr> \<rparr>"
  by (simp add: candidate_line_def Let_def nearest_libm_def sq_rounds)

lemma sq_cand_225_0:
  "candidate_line nearest_libm \<lparr> px = 1, py = 1 \<rparr> (4421398595017775 / 1125899906842624) (6369051672525773 / 2251799813685248) (- (6369051672525773 / 4503599627370496)) =
     \<lparr> start = \<lparr> px = 4503599627370497 / 4503599627370496, py = 3 \<rparr>,
         endp = \<lparr> px = - (4503599627370497 / 4503599627370496), py = 1 \<rparr> \<rparr>"
  by (simp add: candidate_line_def Let_def nearest_libm_def sq_rounds)

lemma sq_cand_225_1:
  "candidate_line nearest_libm \<lparr> px = 1, py = 1 \<rparr> (4421398595017775 / 1125899906842624) (6369051672525773 / 2251799813685248) (2638147582215219 / 4503599627370496) =
     \<lparr> start = \<lparr> px = 2718162824974067 / 1125899906842624, py = 7141747209585715 / 4503599627370496 \<rparr>,
         endp = \<lparr> px = 1865452045155275 / 4503599627370496, py = - (1865452045155277 / 4503599627370496) \<rparr> \<rparr>"
  by (simp add: candidate_line_def Let_def nearest_libm_def sq_rounds)

lemma sq_clip_45_0:
  "clipLine \<lparr> start = \<lparr> px = 4503599627370495 / 4503599627370496, py = - (4503599627370497 / 4503599627370496) \<rparr>,
         endp = \<lparr> px = 3, py = 4503599627370495 / 4503599627370496 \<rparr> \<rparr>
     \<lparr> px = 0, py = 0 \<rparr> \<lparr> px = 2, py = 2 \<rparr> =
   Some (True, \<lparr> start = \<lparr> px = 2, py = 0 \<rparr>,
         endp = \<lparr> px = 2, py = 0 \<rparr> \<rparr>)"
  by (simp add: clipLine_def clip_init_def clip_loop.simps trim_step_def trim_point_def
      outcodeOut_def computeOutCode_def oc_consts sq_rounds)

lemma sq_clip_45_1:
  "clipLine \<lparr> start = \<lparr> px = - (1865452045155277 / 4503599627370496), py = 466363011288819 / 1125899906842624 \<rparr>,
         endp = \<lparr> px = 7141747209585717 / 4503599627370496, py = 2718162824974067 / 1125899906842624 \<rparr> \<rparr>
     \<lparr> px = 0, py = 0 \<rparr> \<lparr> px = 2, py = 2 \<rparr> =
   Some (True, \<lparr> start = \<lparr> px = 0, py = 7461808180621105 / 9007199254740992 \<rparr>,
         endp = \<lparr> px = 5276295164430441 / 4503599627370496, py = 2 \<rparr> \<rparr>)"
  by (simp add: clipLine_def clip_init_def clip_loop.simps trim_step_def trim_point_def
      outcodeOut_def computeOutCode_def oc_consts sq_rounds)

lemma sq_clip_225_0:
  "clipLine \<lparr> start = \<lparr> px = 4503599627370497 / 4503599627370496, py = 3 \<rparr>,
         endp = \<lparr> px = - (4503599627370497 / 4503599627370496), py = 1 \<rparr> \<rparr>
     \<lparr> px = 0, py = 0 \<rparr> \<lparr> px = 2, py = 2 \<rparr> =
   Some (True, \<lparr> start = \<lparr> px = 0, py = 2 \<rparr>,
         endp = \<lparr> px = 0, py = 2 \<rparr> \<rparr>)"
  by (simp add: clipLine_def clip_init_def clip_loop.simps trim_step_def trim_point_def
      outcodeOut_def computeOutCode_def oc_consts sq_rounds)

lemma sq_clip_225_1:
  "clipLine \<lparr> start = \<lparr> px = 2718162824974067 / 1125899906842624, py = 7141747209585715 / 4503599627370496 \<rparr>,
         endp = \<lparr> px = 1865452045155275 / 4503599627370496, py = - (1865452045155277 / 4503599627370496) \<rparr> \<rparr>
     \<lparr> px = 0, py = 0 \<rparr> \<lparr> px = 2, py = 2 \<rparr> =
   Some (True, \<lparr> start = \<lparr> px = 2, py = 5276295164430439 / 4503599627370496 \<rparr>,
         endp = \<lparr> px = 3730904090310553 / 4503599627370496, py = 0 \<rparr> \<rparr>)"
  by (simp add: clipLine_def clip_init_def clip_loop.simps trim_step_def trim_point_def
      outcodeOut_def computeOutCode_def oc_consts sq_rounds)

lemma sq_body_45_0:
  "clip_body nearest_libm \<lparr> px = 0, py = 0 \<rparr> \<lparr> px = 2, py = 2 \<rparr> \<lparr> px = 1, py = 1 \<rparr> (884279719003555 / 1125899906842624) (6369051672525773 / 2251799813685248) (- (6369051672525773 / 4503599627370496)) acc =
     Some (acc @ [\<lparr> start = \<lparr> px = 2, py = 0 \<rparr>,
         endp = \<lparr> px = 2, py = 0 \<rparr> \<rparr>])"
  by (simp add: clip_body_def sq_cand_45_0 sq_clip_45_0)

lemma sq_body_45_1:
  "clip_body nearest_libm \<lparr> px = 0, py = 0 \<rparr> \<lparr> px = 2, py = 2 \<rparr> \<lparr> px = 1, py = 1 \<rparr> (884279719003555 / 1125899906842624) (6369051672525773 / 2251799813685248) (2638147582215219 / 4503599627370496) acc =
     Some (acc @ [\<lparr> start = \<lparr> px = 0, py = 7461808180621105 / 9007199254740992 \<rparr>,
         endp = \<lparr> px = 5276295164430441 / 4503599627370496, py = 2 \<rparr> \<rparr>])"
  by (simp add: clip_body_def sq_cand_45_1 sq_clip_45_1)

lemma sq_body_225_0:
  "clip_body nearest_libm \<lparr> px = 0, py = 0 \<rparr> \<lparr> px = 2, py = 2 \<rparr> \<lparr> px = 1, py = 1 \<rparr> (4421398595017775 / 1125899906842624) (6369051672525773 / 2251799813685248) (- (6369051672525773 / 4503599627370496)) acc =
     Some (acc @ [\<lparr> start = \<lparr> px = 0, py = 2 \<rparr>,
         endp = \<lparr> px = 0, py = 2 \<rparr> \<rparr>])"
  by (simp add: clip_body_def sq_cand_225_0 sq_clip_225_0)

lemma sq_body_225_1:
  "clip_body nearest_libm \<lparr> px = 0, py = 0 \<rparr> \<lparr> px = 2, py = 2 \<rparr> \<lparr> px = 1, py = 1 \<rparr> (4421398595017775 / 1125899906842624) (6369051672525773 / 2251799813685248) (2638147582215219 / 4503599627370496) acc =
     Some (acc @ [\<lparr> start = \<lparr> px = 2, py = 5276295164430439 / 4503599627370496 \<rparr>,
         endp = \<lparr> px = 3730904090310553 / 4503599627370496, py = 0 \<rparr> \<rparr>])"
  by (simp add: clip_body_def sq_cand_225_1 sq_clip_225_1)

lemma sq_generate_45:
  "generate nearest_libm \<lparr> px = 0, py = 0 \<rparr> \<lparr> px = 2, py = 2 \<rparr> 45 2 =
     Some [\<lparr> start = \<lparr> px = 2, py = 0 \<rparr>,
         endp = \<lparr> px = 2, py = 0 \<rparr> \<rparr>,
           \<lparr> start = \<lparr> px = 0, py = 7461808180621105 / 9007199254740992 \<rparr>,
         endp = \<lparr> px = 5276295164430441 / 4503599627370496, py = 2 \<rparr> \<rparr>]"
  by (simp add: generate_def Let_def degreesToRadians_def nearest_libm_pi for_loop.simps
      sq_sqrt sq_body_45_0 sq_body_45_1 sq_rounds)

lemma sq_generate_225:
  "generate nearest_libm \<lparr> px = 0, py = 0 \<rparr> \<lparr> px = 2, py = 2 \<rparr> 225 2 =
     Some [\<lparr> start = \<lparr> px = 0, py = 2 \<rparr>,
         endp = \<lparr> px = 0, py = 2 \<rparr> \<rparr>,
           \<lparr> start = \<lparr> px = 2, py = 5276295164430439 / 4503599627370496 \<rparr>,
         endp = \<lparr> px = 3730904090310553 / 4503599627370496, py = 0 \<rparr> \<rparr>]"
  by (simp add: generate_def Let_def degreesToRadians_def nearest_libm_pi for_loop.simps
      sq_sqrt sq_body_225_0 sq_body_225_1 sq_rounds)

subsection \<open>A line on which the loop of \<open>clipLine\<close> never leaves\<close>

text \<open>The roundings of the three trim steps taken from the entry state.\<close>

lemma cyc_r1: "dsub (5629499534213121 / 562949953421312) (- (2589569785738035 / 562949953421312)) = 2054767329987789 / 140737488355328"
  unfolding dsub_def by (rule round_double_eval[where k = 49 and m = 8219069319951156]) simp_all

lemma cyc_r2: "dsub 5 (- (4278419646001971 / 1125899906842624)) = 2476979795053773 / 281474976710656"
  unfolding dsub_def by (rule round_double_eval_tie[where k = 49 and m = 4953959590107546]) simp_all

lemma cyc_r3: "dmul (2054767329987789 / 140737488355328) (2476979795053773 / 281474976710656) = 282530507873321 / 2199023255552"
  unfolding dmul_def by (rule round_double_eval[where k = 45 and m = 4520488125973136]) simp_all

lemma cyc_r4: "dsub (5629499534213121 / 1125899906842624) (- (4278419646001971 / 1125899906842624)) = 2476979795053773 / 281474976710656"
  unfolding dsub_def by (rule round_double_eval[where k = 49 and m = 4953959590107546]) simp_all

lemma cyc_r5: "ddiv (282530507873321 / 2199023255552) (2476979795053773 / 281474976710656) = 2054767329987789 / 140737488355328"
  unfolding ddiv_def by (rule round_double_eval[where k = 49 and m = 8219069319951156]) simp_all

lemma cyc_r6: "dadd (- (2589569785738035 / 562949953421312)) (2054767329987789 / 140737488355328) = 5629499534213121 / 562949953421312"
  unfolding dadd_def by (rule round_double_eval[where k = 49 and m = 5629499534213121]) simp_all

lemma cyc_r7: "dsub 10 (- (2589569785738035 / 562949953421312)) = 8219069319951155 / 562949953421312"
  unfolding dsub_def by (rule round_double_eval[where k = 49 and m = 8219069319951155]) simp_all

lemma cyc_r8: "dmul (2476979795053773 / 281474976710656) (8219069319951155 / 562949953421312) = 282530507873321 / 2199023255552"
  unfolding dmul_def by (rule round_double_eval[where k = 45 and m = 4520488125973136]) simp_all

lemma cyc_r9: "ddiv (282530507873321 / 2199023255552) (2054767329987789 / 140737488355328) = 2476979795053773 / 281474976710656"
  unfolding ddiv_def by (rule round_double_eval[where k = 49 and m = 4953959590107546]) simp_all

lemma cyc_r10: "dadd (- (4278419646001971 / 1125899906842624)) (2476979795053773 / 281474976710656) = 5629499534213121 / 1125899906842624"
  unfolding dadd_def by (rule round_double_eval[where k = 50 and m = 5629499534213121]) simp_all

lemma cyc_r11: "dmul (8219069319951155 / 562949953421312) (2476979795053773 / 281474976710656) = 282530507873321 / 2199023255552"
  unfolding dmul_def by (rule round_double_eval[where k = 45 and m = 4520488125973136]) simp_all

lemma cyc_init:
  "clip_init \<lparr> start = \<lparr> px = - (2589569785738035 / 562949953421312), py = - (4278419646001971 / 1125899906842624) \<rparr>,
         endp = \<lparr> px = 5629499534213121 / 562949953421312, py = 5629499534213121 / 1125899906842624 \<rparr> \<rparr>
     \<lparr> px = - 10, py = - 5 \<rparr> \<lparr> px = 10, py = 5 \<rparr> =
   \<lparr> x0 = - (2589569785738035 / 562949953421312), y0 = - (4278419646001971 / 1125899906842624),
       x1 = 5629499534213121 / 562949953421312, y1 = 5629499534213121 / 1125899906842624,
       outcode0 = 0, outcode1 = 10 \<rparr>"
  by (simp add: clip_init_def computeOutCode_def oc_consts)

lemma cyc_trim0:
  "trim_step \<lparr> px = - 10, py = - 5 \<rparr> \<lparr> px = 10, py = 5 \<rparr>
     \<lparr> x0 = - (2589569785738035 / 562949953421312), y0 = - (4278419646001971 / 1125899906842624),
       x1 = 5629499534213121 / 562949953421312, y1 = 5629499534213121 / 1125899906842624,
       outcode0 = 0, outcode1 = 10 \<rparr> =
   \<lparr> x0 = - (2589569785738035 / 562949953421312), y0 = - (4278419646001971 / 1125899906842624),
       x1 = 5629499534213121 / 562949953421312, y1 = 5,
       outcode0 = 0, outcode1 = 2 \<rparr>"
  by (simp add: trim_step_def trim_point_def outcodeOut_def computeOutCode_def oc_consts
      cyc_r1 cyc_r2 cyc_r3 cyc_r4 cyc_r5 cyc_r6 cyc_r7 cyc_r8 cyc_r9 cyc_r10 cyc_r11)

lemma cyc_trim1:
  "trim_step \<lparr> px = - 10, py = - 5 \<rparr> \<lparr> px = 10, py = 5 \<rparr>
     \<lparr> x0 = - (2589569785738035 / 562949953421312), y0 = - (4278419646001971 / 1125899906842624),
       x1 = 5629499534213121 / 562949953421312, y1 = 5,
       outcode0 = 0, outcode1 = 2 \<rparr> =
   \<lparr> x0 = - (2589569785738035 / 562949953421312), y0 = - (4278419646001971 / 1125899906842624),
       x1 = 10, y1 = 5629499534213121 / 1125899906842624,
       outcode0 = 0, outcode1 = 8 \<rparr>"
  by (simp add: trim_step_def trim_point_def outcodeOut_def computeOutCode_def oc_consts
      cyc_r1 cyc_r2 cyc_r3 cyc_r4 cyc_r5 cyc_r6 cyc_r7 cyc_r8 cyc_r9 cyc_r10 cyc_r11)

lemma cyc_trim2:
  "trim_step \<lparr> px = - 10, py = - 5 \<rparr> \<lparr> px = 10, py = 5 \<rparr>
     \<lparr> x0 = - (2589569785738035 / 562949953421312), y0 = - (4278419646001971 / 1125899906842624),
       x1 = 10, y1 = 5629499534213121 / 1125899906842624,
       outcode0 = 0, outcode1 = 8 \<rparr> =
   \<lparr> x0 = - (2589569785738035 / 562949953421312), y0 = - (4278419646001971 / 1125899906842624),
       x1 = 5629499534213121 / 562949953421312, y1 = 5,
       outcode0 = 0, outcode1 = 2 \<rparr>"
  by (simp add: trim_step_def trim_point_def outcodeOut_def computeOutCode_def oc_consts
      cyc_r1 cyc_r2 cyc_r3 cyc_r4 cyc_r5 cyc_r6 cyc_r7 cyc_r8 cyc_r9 cyc_r10 cyc_r11)

lemma cyc_no_exit:
  "\<not> loop_exit \<lparr> x0 = - (2589569785738035 / 562949953421312), y0 = - (4278419646001971 / 1125899906842624),
       x1 = 5629499534213121 / 562949953421312, y1 = 5629499534213121 / 1125899906842624,
       outcode0 = 0, outcode1 = 10 \<rparr>"
  "\<not> loop_exit \<lparr> x0 = - (2589569785738035 / 562949953421312), y0 = - (4278419646001971 / 1125899906842624),
       x1 = 5629499534213121 / 562949953421312, y1 = 5,
       outcode0 = 0, outcode1 = 2 \<rparr>"
  "\<not> loop_exit \<lparr> x0 = - (2589569785738035 / 562949953421312), y0 = - (4278419646001971 / 1125899906842624),
       x1 = 10, y1 = 5629499534213121 / 1125899906842624,
       outcode0 = 0, outcode1 = 8 \<rparr>"
  by (simp_all add: loop_exit_def)

lemma cyc_doubles:
  "is_double (- (2589569785738035 / 562949953421312))" "is_double (- (4278419646001971 / 1125899906842624))"
  "is_double (5629499534213121 / 562949953421312)" "is_double (5629499534213121 / 1125899906842624)"
  unfolding is_double_def
  subgoal by (rule round_double_exact[where k = 50 and m = "- 5179139571476070"]) simp_all
  subgoal by (rule round_double_exact[where k = 51 and m = "- 8556839292003942"]) simp_all
  subgoal by (rule round_double_exact[where k = 49 and m = 5629499534213121]) simp_all
  subgoal by (rule round_double_exact[where k = 50 and m = 5629499534213121]) simp_all
  done

subsection \<open>The sums of the loop of the angle 0 for the step \<open>3.3333333333333335\<close>\<close>

lemma thirds_r1: "dadd 0 (7505999378950827 / 2251799813685248) = 7505999378950827 / 2251799813685248"
  unfolding dadd_def by (rule round_double_eval[where k = 51 and m = 7505999378950827]) simp_all

lemma thirds_r2: "dadd (7505999378950827 / 2251799813685248) (7505999378950827 / 2251799813685248) = 7505999378950827 / 1125899906842624"
  unfolding dadd_def by (rule round_double_eval[where k = 50 and m = 7505999378950827]) simp_all

lemma thirds_r3: "dadd (7505999378950827 / 1125899906842624) (7505999378950827 / 2251799813685248) = 10"
  unfolding dadd_def by (rule round_double_eval[where k = 49 and m = 5629499534213120]) simp_all

lemma thirds_r4: "dadd 10 (7505999378950827 / 2251799813685248) = 7505999378950827 / 562949953421312"
  unfolding dadd_def by (rule round_double_eval[where k = 49 and m = 7505999378950827]) simp_all

lemmas thirds_rounds = thirds_r1 thirds_r2 thirds_r3 thirds_r4

section \<open>The properties\<close>



text \<open>
  Claim C2, as it is stated, fails for the code. The rectangle is \<open>(-10, -5)-(10, 5)\<close> and the line runs
  from \<open>(-4.6, -3.8)\<close> to \<open>(10 + 2\<^sup>-\<^sup>4\<^sup>9, 5 + 2\<^sup>-\<^sup>5\<^sup>0)\<close>, all four coordinates doubles; the
  end is right of and above the rectangle. The trim at the top edge puts the end at
  \<open>(10 + 2\<^sup>-\<^sup>4\<^sup>9, 5)\<close>, the trim at the right edge puts it at \<open>(10, 5 + 2\<^sup>-\<^sup>5\<^sup>0)\<close>, the next trim
  at the top edge puts it at \<open>(10 + 2\<^sup>-\<^sup>4\<^sup>9, 5)\<close> again, and so on: the quotients are rounded,
  the end never comes inside, and the loop of \<open>clipLine\<close> never leaves.
\<close>

theorem clipLine_never_returns:
  "valid_rect \<lparr> px = - 10, py = - 5 \<rparr> \<lparr> px = 10, py = 5 \<rparr> \<and>
   is_double (- (2589569785738035 / 562949953421312)) \<and> is_double (- (4278419646001971 / 1125899906842624)) \<and>
   is_double (5629499534213121 / 562949953421312) \<and> is_double (5629499534213121 / 1125899906842624) \<and>
   clipLine \<lparr> start = \<lparr> px = - (2589569785738035 / 562949953421312), py = - (4278419646001971 / 1125899906842624) \<rparr>,
         endp = \<lparr> px = 5629499534213121 / 562949953421312, py = 5629499534213121 / 1125899906842624 \<rparr> \<rparr>
     \<lparr> px = - 10, py = - 5 \<rparr> \<lparr> px = 10, py = 5 \<rparr> = None"
proof -
  let ?bl = "\<lparr> px = - 10, py = - 5 \<rparr>" and ?tr = "\<lparr> px = 10, py = 5 \<rparr>"
  let ?s0 = "\<lparr> x0 = - (2589569785738035 / 562949953421312), y0 = - (4278419646001971 / 1125899906842624),
       x1 = 5629499534213121 / 562949953421312, y1 = 5629499534213121 / 1125899906842624,
       outcode0 = 0, outcode1 = 10 \<rparr>"
  let ?s1 = "\<lparr> x0 = - (2589569785738035 / 562949953421312), y0 = - (4278419646001971 / 1125899906842624),
       x1 = 5629499534213121 / 562949953421312, y1 = 5,
       outcode0 = 0, outcode1 = 2 \<rparr>"
  let ?s2 = "\<lparr> x0 = - (2589569785738035 / 562949953421312), y0 = - (4278419646001971 / 1125899906842624),
       x1 = 10, y1 = 5629499534213121 / 1125899906842624,
       outcode0 = 0, outcode1 = 8 \<rparr>"
  have "clip_loop ?bl ?tr ?s1 = None"
    by (rule clip_loop_cycle[OF cyc_trim1 cyc_trim2 cyc_no_exit(2) cyc_no_exit(3)])
  moreover have "clip_loop ?bl ?tr ?s0 = clip_loop ?bl ?tr (trim_step ?bl ?tr ?s0)"
    by (subst clip_loop.simps) simp
  ultimately have "clip_loop ?bl ?tr ?s0 = None" unfolding cyc_trim0 by simp
  then show ?thesis
    unfolding clipLine_def cyc_init using cyc_doubles by (simp add: valid_rect_def)
qed

text \<open>
  Claim C3. In every state in which the loop of \<open>clipLine\<close> reaches the trim step (neither
  the accept test nor the reject test holds), the two endpoints differ in \<open>y\<close> when the
  selected outcode has the TOP or the BOTTOM bit, they differ in \<open>x\<close> when it has the RIGHT
  or the LEFT bit, and the divisor of the branch that is taken is not zero.
\<close>

theorem trim_divisor_nonzero:
  assumes "clip_reach bl tr line s" and "\<not> loop_exit s"
  shows "(outcodeOut s AND TOP \<noteq> 0 \<or> outcodeOut s AND BOTTOM \<noteq> 0 \<longrightarrow> y1 s \<noteq> y0 s) \<and>
         (outcodeOut s AND RIGHT \<noteq> 0 \<or> outcodeOut s AND LEFT \<noteq> 0 \<longrightarrow> x1 s \<noteq> x0 s) \<and>
         trim_divisor s \<noteq> 0"
proof -
  note d = divisor_nonzero[OF clip_reach_codes_ok[OF assms(1)] assms(2)]
  from d have "trim_divisor s \<noteq> 0" by (auto simp: trim_divisor_def dsub_eq_0_iff)
  with d show ?thesis by blast
qed

theorem trim_divisor_nonzero_witness:
  "clip_reach \<lparr> px = 0, py = 0 \<rparr> \<lparr> px = 20, py = 10 \<rparr> \<lparr> start = \<lparr> px = - 5, py = 5 \<rparr>, endp = \<lparr> px = 5, py = 25 \<rparr> \<rparr> (clip_init \<lparr> start = \<lparr> px = - 5, py = 5 \<rparr>, endp = \<lparr> px = 5, py = 25 \<rparr> \<rparr> \<lparr> px = 0, py = 0 \<rparr> \<lparr> px = 20, py = 10 \<rparr>) \<and>
   \<not> loop_exit (clip_init \<lparr> start = \<lparr> px = - 5, py = 5 \<rparr>, endp = \<lparr> px = 5, py = 25 \<rparr> \<rparr> \<lparr> px = 0, py = 0 \<rparr> \<lparr> px = 20, py = 10 \<rparr>) \<and>
   outcodeOut (clip_init \<lparr> start = \<lparr> px = - 5, py = 5 \<rparr>, endp = \<lparr> px = 5, py = 25 \<rparr> \<rparr> \<lparr> px = 0, py = 0 \<rparr> \<lparr> px = 20, py = 10 \<rparr>) AND LEFT \<noteq> 0 \<and>
   x1 (clip_init \<lparr> start = \<lparr> px = - 5, py = 5 \<rparr>, endp = \<lparr> px = 5, py = 25 \<rparr> \<rparr> \<lparr> px = 0, py = 0 \<rparr> \<lparr> px = 20, py = 10 \<rparr>) \<noteq> x0 (clip_init \<lparr> start = \<lparr> px = - 5, py = 5 \<rparr>, endp = \<lparr> px = 5, py = 25 \<rparr> \<rparr> \<lparr> px = 0, py = 0 \<rparr> \<lparr> px = 20, py = 10 \<rparr>) \<and>
   trim_divisor (clip_init \<lparr> start = \<lparr> px = - 5, py = 5 \<rparr>, endp = \<lparr> px = 5, py = 25 \<rparr> \<rparr> \<lparr> px = 0, py = 0 \<rparr> \<lparr> px = 20, py = 10 \<rparr>) \<noteq> 0"
proof -
  have r: "clip_reach \<lparr> px = 0, py = 0 \<rparr> \<lparr> px = 20, py = 10 \<rparr> \<lparr> start = \<lparr> px = - 5, py = 5 \<rparr>, endp = \<lparr> px = 5, py = 25 \<rparr> \<rparr> (clip_init \<lparr> start = \<lparr> px = - 5, py = 5 \<rparr>, endp = \<lparr> px = 5, py = 25 \<rparr> \<rparr> \<lparr> px = 0, py = 0 \<rparr> \<lparr> px = 20, py = 10 \<rparr>)" by (rule clip_reach.entry)
  have n: "\<not> loop_exit (clip_init \<lparr> start = \<lparr> px = - 5, py = 5 \<rparr>, endp = \<lparr> px = 5, py = 25 \<rparr> \<rparr> \<lparr> px = 0, py = 0 \<rparr> \<lparr> px = 20, py = 10 \<rparr>)"
    by (simp add: loop_exit_def clip_init_def computeOutCode_def oc_consts)
  have l: "outcodeOut (clip_init \<lparr> start = \<lparr> px = - 5, py = 5 \<rparr>, endp = \<lparr> px = 5, py = 25 \<rparr> \<rparr> \<lparr> px = 0, py = 0 \<rparr> \<lparr> px = 20, py = 10 \<rparr>) AND LEFT \<noteq> 0"
    by (simp add: outcodeOut_def clip_init_def computeOutCode_def oc_consts)
  from trim_divisor_nonzero[OF r n] r n l show ?thesis by blast
qed

text \<open>
  Claim C4, as it is stated, fails: for the rectangle \<open>(0,0)-(20,10)\<close> and step 3 the run at
  the angle 0 counts up from \<open>bottomLeft.y\<close> and emits the lines at \<open>y = 0, 3, 6, 9\<close>, and the
  run at the angle 180 counts down from \<open>topRight.y\<close> and emits the lines at
  \<open>y = 10, 7, 4, 1\<close>. The second sequence is not the first one reversed, and the two sets of
  lines differ.
\<close>

theorem reverse_180_counterexample:
  "generate nearest_libm \<lparr> px = 0, py = 0 \<rparr> \<lparr> px = 20, py = 10 \<rparr> 180 3
     \<noteq> map_option rev (generate nearest_libm \<lparr> px = 0, py = 0 \<rparr> \<lparr> px = 20, py = 10 \<rparr> 0 3) \<and>
   map_option set (generate nearest_libm \<lparr> px = 0, py = 0 \<rparr> \<lparr> px = 20, py = 10 \<rparr> 180 3)
     \<noteq> map_option set (generate nearest_libm \<lparr> px = 0, py = 0 \<rparr> \<lparr> px = 20, py = 10 \<rparr> 0 3)"
proof -
  let ?bl = "\<lparr> px = 0, py = 0 \<rparr>" and ?tr = "\<lparr> px = 20, py = 10 \<rparr>"
  have up: "generate nearest_libm ?bl ?tr 0 3 =
     Some [\<lparr> start = \<lparr> px = 0, py = 0 \<rparr>, endp = \<lparr> px = 20, py = 0 \<rparr> \<rparr>,
           \<lparr> start = \<lparr> px = 0, py = 3 \<rparr>, endp = \<lparr> px = 20, py = 3 \<rparr> \<rparr>,
           \<lparr> start = \<lparr> px = 0, py = 6 \<rparr>, endp = \<lparr> px = 20, py = 6 \<rparr> \<rparr>,
           \<lparr> start = \<lparr> px = 0, py = 9 \<rparr>, endp = \<lparr> px = 20, py = 9 \<rparr> \<rparr>]"
    by (simp add: generate_def Let_def for_loop.simps horizontal_line_def darith)
  have down: "generate nearest_libm ?bl ?tr 180 3 =
     Some [\<lparr> start = \<lparr> px = 0, py = 10 \<rparr>, endp = \<lparr> px = 20, py = 10 \<rparr> \<rparr>,
           \<lparr> start = \<lparr> px = 0, py = 7 \<rparr>, endp = \<lparr> px = 20, py = 7 \<rparr> \<rparr>,
           \<lparr> start = \<lparr> px = 0, py = 4 \<rparr>, endp = \<lparr> px = 20, py = 4 \<rparr> \<rparr>,
           \<lparr> start = \<lparr> px = 0, py = 1 \<rparr>, endp = \<lparr> px = 20, py = 1 \<rparr> \<rparr>]"
    by (simp add: generate_def Let_def for_loop.simps horizontal_line_def darith)
  let ?l = "\<lparr> start = \<lparr> px = 0, py = 10 \<rparr>, endp = \<lparr> px = 20, py = 10 \<rparr> \<rparr>"
  have ne: "generate nearest_libm ?bl ?tr 180 3 \<noteq> map_option rev (generate nearest_libm ?bl ?tr 0 3)"
    unfolding up down by simp
  have "?l \<in> set (the (generate nearest_libm ?bl ?tr 180 3))"
       "?l \<notin> set (the (generate nearest_libm ?bl ?tr 0 3))"
    unfolding up down by simp_all
  then have "set (the (generate nearest_libm ?bl ?tr 180 3)) \<noteq> set (the (generate nearest_libm ?bl ?tr 0 3))"
    by metis
  then have "map_option set (generate nearest_libm ?bl ?tr 180 3)
      \<noteq> map_option set (generate nearest_libm ?bl ?tr 0 3)"
    unfolding up down by simp
  with ne show ?thesis by blast
qed

text \<open>
  Claim C4, amended. The height of the rectangle is \<open>m\<close> times the step, and the values
  \<open>bottomLeft.y + i * step\<close> for \<open>i = -1, \<dots>, m + 1\<close> are doubles, so that no sum of the loop
  of the angle 0 and no difference of the loop of the angle 180 is rounded. Then both
  loops end, and the generator at the angle 180 returns the \<open>m + 1\<close> lines of the angle 0 in
  reverse order.
\<close>

theorem reverse_180_when_sums_exact:
  assumes step: "0 < step" and m: "py tr - py bl = real m * step"
    and ex: "\<forall>i::int. - 1 \<le> i \<and> i \<le> int m + 1 \<longrightarrow> is_double (py bl + of_int i * step)"
  shows "\<exists>ls. generate lib bl tr 0 step = Some ls \<and> generate lib bl tr 180 step = Some (rev ls)
              \<and> length ls = m + 1"
proof -
  let ?n = "Suc m"
  let ?u = "\<lambda>v. dadd v step" and ?d = "\<lambda>v. dsub v step"
  have rd: "round_double (py bl + of_int i * step) = py bl + of_int i * step"
    if "- 1 \<le> i" "i \<le> int m + 1" for i
    using ex that by (simp add: is_double_def)
  have up: "(?u ^^ j) (py bl) = py bl + real j * step" if "j \<le> ?n" for j
    using that
  proof (induction j)
    case 0
    then show ?case by simp
  next
    case (Suc j)
    then have ih: "(?u ^^ j) (py bl) = py bl + real j * step" by simp
    have "(?u ^^ Suc j) (py bl) = dadd ((?u ^^ j) (py bl)) step" by simp
    also have "\<dots> = dadd (py bl + real j * step) step" by (simp only: ih)
    also have "\<dots> = round_double (py bl + of_int (int (Suc j)) * step)"
      by (simp add: dadd_def algebra_simps)
    also have "\<dots> = py bl + of_int (int (Suc j)) * step"
      using Suc.prems by (intro rd) simp_all
    also have "\<dots> = py bl + real (Suc j) * step" by simp
    finally show ?case .
  qed
  have down: "(?d ^^ j) (py tr) = py tr - real j * step" if "j \<le> ?n" for j
    using that
  proof (induction j)
    case 0
    then show ?case by simp
  next
    case (Suc j)
    then have ih: "(?d ^^ j) (py tr) = py tr - real j * step" by simp
    have t: "py tr = py bl + real m * step" using m by simp
    have "(?d ^^ Suc j) (py tr) = dsub ((?d ^^ j) (py tr)) step" by simp
    also have "\<dots> = dsub (py tr - real j * step) step" by (simp only: ih)
    also have "\<dots> = round_double (py bl + of_int (int m - int (Suc j)) * step)"
      by (simp add: dsub_def t algebra_simps)
    also have "\<dots> = py bl + of_int (int m - int (Suc j)) * step"
      using Suc.prems by (intro rd) simp_all
    also have "\<dots> = py tr - real (Suc j) * step" by (simp add: t algebra_simps)
    finally show ?case .
  qed
  have le: "real j * step \<le> real m * step" if "j < ?n" for j
    using that step by (intro mult_right_mono) simp_all
  have u1: "\<forall>j<?n. (?u ^^ j) (py bl) \<le> py tr"
  proof (intro allI impI)
    fix j assume j: "j < ?n"
    then have "(?u ^^ j) (py bl) = py bl + real j * step" by (intro up) simp
    then show "(?u ^^ j) (py bl) \<le> py tr" using le[OF j] m by simp
  qed
  have "(?u ^^ ?n) (py bl) = py bl + real ?n * step" by (rule up) simp
  then have u2: "\<not> (?u ^^ ?n) (py bl) \<le> py tr" using m step by (simp add: algebra_simps)
  have d1: "\<forall>j<?n. (?d ^^ j) (py tr) \<ge> py bl"
  proof (intro allI impI)
    fix j assume j: "j < ?n"
    then have "(?d ^^ j) (py tr) = py tr - real j * step" by (intro down) simp
    then show "(?d ^^ j) (py tr) \<ge> py bl" using le[OF j] m by simp
  qed
  have "(?d ^^ ?n) (py tr) = py tr - real ?n * step" by (rule down) simp
  then have d2: "\<not> (?d ^^ ?n) (py tr) \<ge> py bl" using m step by (simp add: algebra_simps)
  let ?up = "map (\<lambda>j. horizontal_line bl tr ((?u ^^ j) (py bl))) [0..<?n]"
  let ?down = "map (\<lambda>j. horizontal_line bl tr ((?d ^^ j) (py tr))) [0..<?n]"
  have "?down = rev ?up"
  proof (rule nth_equalityI)
    show "length ?down = length (rev ?up)" by simp
  next
    fix i assume "i < length ?down"
    then have i: "i < ?n" by simp
    have a: "(?d ^^ i) (py tr) = py tr - real i * step" using i by (intro down) simp
    have b: "(?u ^^ (m - i)) (py bl) = py bl + real (m - i) * step" by (intro up) simp
    have "py tr - real i * step = py bl + real (m - i) * step"
      using m i by (simp add: of_nat_diff algebra_simps)
    then have "(?d ^^ i) (py tr) = (?u ^^ (m - i)) (py bl)" using a b by simp
    then show "?down ! i = rev ?up ! i"
      using i by (simp add: rev_nth del: upt_Suc funpow.simps)
  qed
  moreover have "generate lib bl tr 0 step = Some ?up"
    by (rule generate_horizontal_up[OF _ u1 u2]) simp
  moreover have "generate lib bl tr 180 step = Some ?down"
    by (rule generate_horizontal_down[OF _ d1 d2]) simp
  ultimately show ?thesis by (intro exI[of _ ?up]) simp
qed

theorem reverse_180_when_sums_exact_witness:
  "(0::real) < 5 \<and> py \<lparr> px = 20, py = 10 \<rparr> - py \<lparr> px = 0, py = 0 \<rparr> = real 2 * 5 \<and>
   is_double (- 5) \<and> is_double 0 \<and> is_double 5 \<and> is_double 10 \<and> is_double 15 \<and>
   generate nearest_libm \<lparr> px = 0, py = 0 \<rparr> \<lparr> px = 20, py = 10 \<rparr> 0 5 =
     Some [\<lparr> start = \<lparr> px = 0, py = 0 \<rparr>, endp = \<lparr> px = 20, py = 0 \<rparr> \<rparr>,
           \<lparr> start = \<lparr> px = 0, py = 5 \<rparr>, endp = \<lparr> px = 20, py = 5 \<rparr> \<rparr>,
           \<lparr> start = \<lparr> px = 0, py = 10 \<rparr>, endp = \<lparr> px = 20, py = 10 \<rparr> \<rparr>] \<and>
   generate nearest_libm \<lparr> px = 0, py = 0 \<rparr> \<lparr> px = 20, py = 10 \<rparr> 180 5 =
     Some [\<lparr> start = \<lparr> px = 0, py = 10 \<rparr>, endp = \<lparr> px = 20, py = 10 \<rparr> \<rparr>,
           \<lparr> start = \<lparr> px = 0, py = 5 \<rparr>, endp = \<lparr> px = 20, py = 5 \<rparr> \<rparr>,
           \<lparr> start = \<lparr> px = 0, py = 0 \<rparr>, endp = \<lparr> px = 20, py = 0 \<rparr> \<rparr>]"
proof -
  let ?bl = "\<lparr> px = 0, py = 0 \<rparr>" and ?tr = "\<lparr> px = 20, py = 10 \<rparr>"
  have s: "(0::real) < 5" and m: "py ?tr - py ?bl = real 2 * 5" by simp_all
  have e: "\<forall>i::int. - 1 \<le> i \<and> i \<le> int 2 + 1 \<longrightarrow> is_double (py ?bl + of_int i * 5)"
  proof (intro allI impI)
    fix i :: int assume i: "- 1 \<le> i \<and> i \<le> int 2 + 1"
    then have "\<bar>i\<bar> \<le> 3" by linarith
    moreover have "\<bar>i * 5\<bar> = \<bar>i\<bar> * 5" by (simp add: abs_mult)
    ultimately have "\<bar>i * 5\<bar> < 2 ^ 53" by simp
    from is_double_of_int[OF this] show "is_double (py ?bl + of_int i * 5)" by simp
  qed
  have d: "is_double (- 5)" "is_double 0" "is_double 5" "is_double 10" "is_double 15"
    using is_double_of_int[of "- 5"] by (simp_all add: is_double_numeral)
  have up: "generate nearest_libm ?bl ?tr 0 5 =
     Some [\<lparr> start = \<lparr> px = 0, py = 0 \<rparr>, endp = \<lparr> px = 20, py = 0 \<rparr> \<rparr>,
           \<lparr> start = \<lparr> px = 0, py = 5 \<rparr>, endp = \<lparr> px = 20, py = 5 \<rparr> \<rparr>,
           \<lparr> start = \<lparr> px = 0, py = 10 \<rparr>, endp = \<lparr> px = 20, py = 10 \<rparr> \<rparr>]"
    by (simp add: generate_def Let_def for_loop.simps horizontal_line_def darith)
  from reverse_180_when_sums_exact[OF s m e, of nearest_libm]
  obtain ls where a: "generate nearest_libm ?bl ?tr 0 5 = Some ls"
    and b: "generate nearest_libm ?bl ?tr 180 5 = Some (rev ls)" by blast
  from a up have "ls = [\<lparr> start = \<lparr> px = 0, py = 0 \<rparr>, endp = \<lparr> px = 20, py = 0 \<rparr> \<rparr>,
           \<lparr> start = \<lparr> px = 0, py = 5 \<rparr>, endp = \<lparr> px = 20, py = 5 \<rparr> \<rparr>,
           \<lparr> start = \<lparr> px = 0, py = 10 \<rparr>, endp = \<lparr> px = 20, py = 10 \<rparr> \<rparr>]" by simp
  with b have down: "generate nearest_libm ?bl ?tr 180 5 =
     Some [\<lparr> start = \<lparr> px = 0, py = 10 \<rparr>, endp = \<lparr> px = 20, py = 10 \<rparr> \<rparr>,
           \<lparr> start = \<lparr> px = 0, py = 5 \<rparr>, endp = \<lparr> px = 20, py = 5 \<rparr> \<rparr>,
           \<lparr> start = \<lparr> px = 0, py = 0 \<rparr>, endp = \<lparr> px = 20, py = 0 \<rparr> \<rparr>]" by simp
  show ?thesis using s m d up down by (intro conjI)
qed

text \<open>
  Claim C5, as it is stated, fails: the square is \<open>(0,0)-(2,2)\<close> and the step is 2, with the library
  \<open>nearest_libm\<close>. \<open>fmod 225 360\<close> is 225, so the angle 225 is not reduced to 45. At 45 the
  run gives the corner \<open>(2,0)\<close> and then the line from \<open>(0, 0.828...)\<close> to \<open>(1.171..., 2)\<close>; at
  225 the direction and the perpendicular are the opposite ones, and the run gives the
  corner \<open>(0,2)\<close> and then the line from \<open>(2, 1.171...)\<close> to \<open>(0.828..., 0)\<close>.
\<close>

theorem angle_45_225_counterexample:
  "map_option hatchLines (main_body nearest_libm \<lparr> px = 0, py = 0 \<rparr> \<lparr> px = 2, py = 2 \<rparr> 45 2) =
     Some [\<lparr> start = \<lparr> px = 2, py = 0 \<rparr>, endp = \<lparr> px = 2, py = 0 \<rparr> \<rparr>,
           \<lparr> start = \<lparr> px = 0, py = 7461808180621105 / 9007199254740992 \<rparr>,
             endp = \<lparr> px = 5276295164430441 / 4503599627370496, py = 2 \<rparr> \<rparr>] \<and>
   map_option hatchLines (main_body nearest_libm \<lparr> px = 0, py = 0 \<rparr> \<lparr> px = 2, py = 2 \<rparr> 225 2) =
     Some [\<lparr> start = \<lparr> px = 0, py = 2 \<rparr>, endp = \<lparr> px = 0, py = 2 \<rparr> \<rparr>,
           \<lparr> start = \<lparr> px = 2, py = 5276295164430439 / 4503599627370496 \<rparr>,
             endp = \<lparr> px = 3730904090310553 / 4503599627370496, py = 0 \<rparr> \<rparr>] \<and>
   main_body nearest_libm \<lparr> px = 0, py = 0 \<rparr> \<lparr> px = 2, py = 2 \<rparr> 45 2
     \<noteq> main_body nearest_libm \<lparr> px = 0, py = 0 \<rparr> \<lparr> px = 2, py = 2 \<rparr> 225 2"
proof -
  let ?bl = "\<lparr> px = 0, py = 0 \<rparr>" and ?tr = "\<lparr> px = 2, py = 2 \<rparr>"
  have n: "normalize_angle 45 = 45" "normalize_angle 225 = 225"
    by (simp_all add: normalize_angle_small)
  have a: "map_option hatchLines (main_body nearest_libm ?bl ?tr 45 2) =
      generate nearest_libm ?bl ?tr 45 2"
    and b: "map_option hatchLines (main_body nearest_libm ?bl ?tr 225 2) =
      generate nearest_libm ?bl ?tr 225 2"
    by (simp_all add: main_body_lines n)
  have "map_option hatchLines (main_body nearest_libm ?bl ?tr 45 2)
      \<noteq> map_option hatchLines (main_body nearest_libm ?bl ?tr 225 2)"
    unfolding a b sq_generate_45 sq_generate_225 by simp
  then have "main_body nearest_libm ?bl ?tr 45 2 \<noteq> main_body nearest_libm ?bl ?tr 225 2"
    by metis
  then show ?thesis unfolding a b sq_generate_45 sq_generate_225 by simp
qed

text \<open>
  Claim C5, amended. An angle that lines 196 and 197 reduce to \<open>a\<close> gives the run of \<open>a\<close>. For a
  double \<open>a\<close> with \<open>0 \<le> a < 360\<close> and any whole number of turns \<open>k\<close>, the run at the angle
  \<open>a + 360 * k\<close> is the run at the angle \<open>a\<close>: the same exit code and the same sequence of
  lines, or no end in both. With \<open>a = 45\<close>: the angles 405 and -315 give the pattern of the
  angle 45, for every rectangle, every step and every library.
\<close>

theorem angle_plus_turns_same_pattern:
  assumes "0 \<le> a" and "a < 360" and "is_double a"
  shows "main_body lib bl tr (a + 360 * of_int k) step = main_body lib bl tr a step"
proof -
  have "normalize_angle (a + 360 * of_int k) = a" by (rule normalize_angle_plus_turns[OF assms])
  moreover have "normalize_angle a = a" using assms(1,2) by (simp add: normalize_angle_small)
  ultimately show ?thesis by (simp add: main_body_def)
qed

theorem angle_plus_turns_same_pattern_witness:
  "(0::real) \<le> 45 \<and> (45::real) < 360 \<and> is_double 45 \<and>
   main_body nearest_libm \<lparr> px = 0, py = 0 \<rparr> \<lparr> px = 2, py = 2 \<rparr> (- 315) 2 =
     main_body nearest_libm \<lparr> px = 0, py = 0 \<rparr> \<lparr> px = 2, py = 2 \<rparr> 45 2 \<and>
   main_body nearest_libm \<lparr> px = 0, py = 0 \<rparr> \<lparr> px = 2, py = 2 \<rparr> 405 2 =
     main_body nearest_libm \<lparr> px = 0, py = 0 \<rparr> \<lparr> px = 2, py = 2 \<rparr> 45 2"
proof -
  have d: "is_double 45" by (simp add: is_double_numeral)
  have "(45::real) + 360 * of_int (- 1) = - 315" "(45::real) + 360 * of_int 1 = 405" by simp_all
  with angle_plus_turns_same_pattern[of 45 nearest_libm "\<lparr> px = 0, py = 0 \<rparr>" "\<lparr> px = 2, py = 2 \<rparr>" "- 1" 2]
    angle_plus_turns_same_pattern[of 45 nearest_libm "\<lparr> px = 0, py = 0 \<rparr>" "\<lparr> px = 2, py = 2 \<rparr>" 1 2] d
  show ?thesis by simp
qed

text \<open>
  Claim C6. At the normalised angle 0 or 360 the generator calls no \<open>clipLine\<close> and emits
  the lines \<open>(bottomLeft.x, y) \<rightarrow> (topRight.x, y)\<close> at the values of the loop variable:
  \<open>y\<^sub>0 = bottomLeft.y\<close>, and \<open>y\<^sub>j\<^sub>+\<^sub>1\<close> is the sum \<open>y\<^sub>j + step\<close> rounded to the nearest double, while
  \<open>y\<^sub>j \<le> topRight.y\<close>. When \<open>y\<^sub>n\<close> is the first value above \<open>topRight.y\<close>, the pattern is the
  \<open>n\<close> lines at \<open>y\<^sub>0, \<dots>, y\<^sub>n\<^sub>-\<^sub>1\<close>, in this order. When no value is above \<open>topRight.y\<close>, the
  loop has no end and no pattern is returned. For the rectangle \<open>(0,0)-(20,10)\<close>, the angle 0
  and the step 1, \<open>main\<close> returns the 11 lines \<open>(0,y)-(20,y)\<close> for \<open>y = 0, 1, \<dots>, 10\<close>.
\<close>

theorem horizontal_generation:
  "(a = 0 \<or> a = 360 \<longrightarrow>
      (\<forall>n. (\<forall>j<n. ((\<lambda>v. dadd v step) ^^ j) (py bl) \<le> py tr) \<and>
            \<not> ((\<lambda>v. dadd v step) ^^ n) (py bl) \<le> py tr \<longrightarrow>
            generate lib bl tr a step =
              Some (map (\<lambda>j. horizontal_line bl tr (((\<lambda>v. dadd v step) ^^ j) (py bl))) [0..<n])) \<and>
      ((\<forall>j. ((\<lambda>v. dadd v step) ^^ j) (py bl) \<le> py tr) \<longrightarrow> generate lib bl tr a step = None)) \<and>
   map_option hatchLines (main lib 0 1) =
     Some (map (\<lambda>j. \<lparr> start = \<lparr> px = 0, py = real j \<rparr>, endp = \<lparr> px = 20, py = real j \<rparr> \<rparr>) [0..<11])"
proof -
  let ?bl = "\<lparr> px = 0, py = 0 \<rparr>" and ?tr = "\<lparr> px = 20, py = 10 \<rparr>"
  let ?f = "\<lambda>v. dadd v 1"
  have it: "(?f ^^ j) 0 = real j" if "j \<le> 11" for j
    using funpow_dadd_int[of 0 j 1] that by simp
  have p: "py ?bl = 0" "py ?tr = 10" by simp_all
  have n1: "\<forall>j<11. (?f ^^ j) (py ?bl) \<le> py ?tr"
  proof (intro allI impI)
    fix j :: nat assume j: "j < 11"
    then have "(?f ^^ j) 0 = real j" by (intro it) simp
    then show "(?f ^^ j) (py ?bl) \<le> py ?tr" unfolding p using j by simp
  qed
  have "(?f ^^ 11) 0 = real 11" by (rule it) simp
  then have n2: "\<not> (?f ^^ 11) (py ?bl) \<le> py ?tr" unfolding p by simp
  have m: "map (\<lambda>j. horizontal_line ?bl ?tr ((?f ^^ j) (py ?bl))) [0..<11] =
      map (\<lambda>j. \<lparr> start = \<lparr> px = 0, py = real j \<rparr>, endp = \<lparr> px = 20, py = real j \<rparr> \<rparr>) [0..<11]"
  proof (rule map_cong[OF refl])
    fix j assume "j \<in> set [0..<11]"
    then have "(?f ^^ j) 0 = real j" by (intro it) simp
    then show "horizontal_line ?bl ?tr ((?f ^^ j) (py ?bl)) =
       \<lparr> start = \<lparr> px = 0, py = real j \<rparr>, endp = \<lparr> px = 20, py = real j \<rparr> \<rparr>"
      unfolding p by (simp add: horizontal_line_def)
  qed
  have "generate lib ?bl ?tr 0 1 =
      Some (map (\<lambda>j. horizontal_line ?bl ?tr ((?f ^^ j) (py ?bl))) [0..<11])"
    by (rule generate_horizontal_up[OF _ n1 n2]) simp
  then have g: "generate lib ?bl ?tr 0 1 =
      Some (map (\<lambda>j. \<lparr> start = \<lparr> px = 0, py = real j \<rparr>, endp = \<lparr> px = 20, py = real j \<rparr> \<rparr>) [0..<11])"
    unfolding m .
  have "map_option hatchLines (main lib 0 1) = generate lib ?bl ?tr 0 1"
    by (simp add: main_def main_body_lines normalize_angle_small)
  then have ex: "map_option hatchLines (main lib 0 1) =
     Some (map (\<lambda>j. \<lparr> start = \<lparr> px = 0, py = real j \<rparr>, endp = \<lparr> px = 20, py = real j \<rparr> \<rparr>) [0..<11])"
    unfolding g .
  have gen: "a = 0 \<or> a = 360 \<longrightarrow>
      (\<forall>n. (\<forall>j<n. ((\<lambda>v. dadd v step) ^^ j) (py bl) \<le> py tr) \<and>
            \<not> ((\<lambda>v. dadd v step) ^^ n) (py bl) \<le> py tr \<longrightarrow>
            generate lib bl tr a step =
              Some (map (\<lambda>j. horizontal_line bl tr (((\<lambda>v. dadd v step) ^^ j) (py bl))) [0..<n])) \<and>
      ((\<forall>j. ((\<lambda>v. dadd v step) ^^ j) (py bl) \<le> py tr) \<longrightarrow> generate lib bl tr a step = None)"
  proof (intro impI conjI allI)
    fix n
    assume a: "a = 0 \<or> a = 360"
      and "(\<forall>j<n. ((\<lambda>v. dadd v step) ^^ j) (py bl) \<le> py tr) \<and>
            \<not> ((\<lambda>v. dadd v step) ^^ n) (py bl) \<le> py tr"
    then show "generate lib bl tr a step =
              Some (map (\<lambda>j. horizontal_line bl tr (((\<lambda>v. dadd v step) ^^ j) (py bl))) [0..<n])"
      by (intro generate_horizontal_up) simp_all
  next
    assume a: "a = 0 \<or> a = 360" and "\<forall>j. ((\<lambda>v. dadd v step) ^^ j) (py bl) \<le> py tr"
    then show "generate lib bl tr a step = None" by (intro generate_horizontal_never) simp_all
  qed
  from gen ex show ?thesis by (rule conjI)
qed

text \<open>
  The step \<open>3.3333333333333335\<close> on the rectangle \<open>(0,0)-(20,10)\<close>: three times the step is
  above 10, but the sums of the loop are \<open>0\<close>, \<open>3.3333333333333335\<close>, \<open>6.666666666666667\<close> and
  \<open>10\<close> (the third sum is rounded down to 10), so the pattern has four lines.
\<close>

theorem horizontal_generation_witness:
  "((360::real) = 0 \<or> (360::real) = 360) \<and>
   ((\<lambda>v. dadd v (7505999378950827 / 2251799813685248)) ^^ 0) (py \<lparr> px = 0, py = 0 \<rparr>) \<le> py \<lparr> px = 20, py = 10 \<rparr> \<and>
   ((\<lambda>v. dadd v (7505999378950827 / 2251799813685248)) ^^ 1) (py \<lparr> px = 0, py = 0 \<rparr>) \<le> py \<lparr> px = 20, py = 10 \<rparr> \<and>
   ((\<lambda>v. dadd v (7505999378950827 / 2251799813685248)) ^^ 2) (py \<lparr> px = 0, py = 0 \<rparr>) \<le> py \<lparr> px = 20, py = 10 \<rparr> \<and>
   ((\<lambda>v. dadd v (7505999378950827 / 2251799813685248)) ^^ 3) (py \<lparr> px = 0, py = 0 \<rparr>) \<le> py \<lparr> px = 20, py = 10 \<rparr> \<and>
   \<not> ((\<lambda>v. dadd v (7505999378950827 / 2251799813685248)) ^^ 4) (py \<lparr> px = 0, py = 0 \<rparr>) \<le> py \<lparr> px = 20, py = 10 \<rparr> \<and>
   generate nearest_libm \<lparr> px = 0, py = 0 \<rparr> \<lparr> px = 20, py = 10 \<rparr> 360 (7505999378950827 / 2251799813685248) =
     Some [\<lparr> start = \<lparr> px = 0, py = 0 \<rparr>, endp = \<lparr> px = 20, py = 0 \<rparr> \<rparr>,
           \<lparr> start = \<lparr> px = 0, py = 7505999378950827 / 2251799813685248 \<rparr>, endp = \<lparr> px = 20, py = 7505999378950827 / 2251799813685248 \<rparr> \<rparr>,
           \<lparr> start = \<lparr> px = 0, py = 7505999378950827 / 1125899906842624 \<rparr>, endp = \<lparr> px = 20, py = 7505999378950827 / 1125899906842624 \<rparr> \<rparr>,
           \<lparr> start = \<lparr> px = 0, py = 10 \<rparr>, endp = \<lparr> px = 20, py = 10 \<rparr> \<rparr>]"
proof -
  let ?bl = "\<lparr> px = 0, py = 0 \<rparr>" and ?tr = "\<lparr> px = 20, py = 10 \<rparr>"
  let ?f = "(\<lambda>v. dadd v (7505999378950827 / 2251799813685248))"
  have p: "py ?bl = 0" "py ?tr = 10" by simp_all
  have a: "(360::real) = 0 \<or> (360::real) = 360" by simp
  have v: "(?f ^^ 0) 0 = 0" "(?f ^^ 1) 0 = 7505999378950827 / 2251799813685248" "(?f ^^ 2) 0 = 7505999378950827 / 1125899906842624"
    "(?f ^^ 3) 0 = 10" "(?f ^^ 4) 0 = 7505999378950827 / 562949953421312"
    by (simp_all add: eval_nat_numeral thirds_rounds)
  have c: "(?f ^^ 0) (py ?bl) \<le> py ?tr" "(?f ^^ 1) (py ?bl) \<le> py ?tr"
    "(?f ^^ 2) (py ?bl) \<le> py ?tr" "(?f ^^ 3) (py ?bl) \<le> py ?tr"
    unfolding p v by simp_all
  have n1: "\<forall>j<4. (?f ^^ j) (py ?bl) \<le> py ?tr"
  proof (intro allI impI)
    fix j :: nat assume "j < 4"
    then consider "j = 0" | "j = 1" | "j = 2" | "j = 3" by linarith
    then show "(?f ^^ j) (py ?bl) \<le> py ?tr" using c by cases simp_all
  qed
  have n2: "\<not> (?f ^^ 4) (py ?bl) \<le> py ?tr" unfolding p v by simp
  have l: "[0..<4] = [0, 1, 2, 3]" by (simp add: upt_rec)
  from horizontal_generation[of 360 "7505999378950827 / 2251799813685248" ?bl ?tr nearest_libm] a n1 n2
  have "generate nearest_libm ?bl ?tr 360 (7505999378950827 / 2251799813685248) =
      Some (map (\<lambda>j. horizontal_line ?bl ?tr ((?f ^^ j) (py ?bl))) [0..<4])" by blast
  then have "generate nearest_libm ?bl ?tr 360 (7505999378950827 / 2251799813685248) =
     Some [\<lparr> start = \<lparr> px = 0, py = 0 \<rparr>, endp = \<lparr> px = 20, py = 0 \<rparr> \<rparr>,
           \<lparr> start = \<lparr> px = 0, py = 7505999378950827 / 2251799813685248 \<rparr>, endp = \<lparr> px = 20, py = 7505999378950827 / 2251799813685248 \<rparr> \<rparr>,
           \<lparr> start = \<lparr> px = 0, py = 7505999378950827 / 1125899906842624 \<rparr>, endp = \<lparr> px = 20, py = 7505999378950827 / 1125899906842624 \<rparr> \<rparr>,
           \<lparr> start = \<lparr> px = 0, py = 10 \<rparr>, endp = \<lparr> px = 20, py = 10 \<rparr> \<rparr>]"
    unfolding l p list.map v by (simp add: horizontal_line_def)
  then show ?thesis using a c n2 by (intro conjI)
qed

text \<open>
  Claim C7. For every \<open>step \<le> 0\<close> the run ends with exit code 1 and the message on
  \<open>std::cerr\<close> before any line is generated: the vector of lines is empty.
\<close>

theorem nonpositive_step_rejected:
  assumes "step \<le> 0"
  shows "main_body lib bl tr angleDegrees step =
           Some \<lparr> exit_code = 1,
                  cerr = ''Error: step must be greater than zero'' @ [CHR 0x0A],
                  hatchLines = [] \<rparr> \<and>
         main lib angleDegrees step =
           Some \<lparr> exit_code = 1,
                  cerr = ''Error: step must be greater than zero'' @ [CHR 0x0A],
                  hatchLines = [] \<rparr>"
  using assms by (simp add: main_def main_body_def)

theorem nonpositive_step_rejected_witness:
  "(0::real) \<le> 0 \<and> (- 1::real) \<le> 0 \<and>
   map_option hatchLines (main nearest_libm 45 0) = Some [] \<and> map_option exit_code (main nearest_libm 45 0) = Some 1 \<and>
   map_option hatchLines (main nearest_libm 45 (- 1)) = Some [] \<and> map_option exit_code (main nearest_libm 45 (- 1)) = Some 1"
proof -
  have a: "(0::real) \<le> 0" and b: "(- 1::real) \<le> 0" by simp_all
  from nonpositive_step_rejected[OF a, of nearest_libm "\<lparr> px = 0, py = 0 \<rparr>" "\<lparr> px = 20, py = 10 \<rparr>" 45]
    nonpositive_step_rejected[OF b, of nearest_libm "\<lparr> px = 0, py = 0 \<rparr>" "\<lparr> px = 20, py = 10 \<rparr>" 45]
  show ?thesis by simp
qed

text \<open>
  Claim C8. A line whose two endpoints are inside or on the rectangle has both outcodes
  INSIDE, and \<open>clipLine\<close> returns true and leaves the line as it was.
\<close>

theorem clipLine_inside_unchanged:
  assumes "point_inside bl tr (start line)" and "point_inside bl tr (endp line)"
  shows "computeOutCode (px (start line)) (py (start line)) bl tr = INSIDE \<and>
         computeOutCode (px (endp line)) (py (endp line)) bl tr = INSIDE \<and>
         clipLine line bl tr = Some (True, line)"
proof -
  have a: "computeOutCode (px (start line)) (py (start line)) bl tr = 0"
    using assms(1) by (simp add: oc_zero point_inside_def)
  have b: "computeOutCode (px (endp line)) (py (endp line)) bl tr = 0"
    using assms(2) by (simp add: oc_zero point_inside_def)
  have "clip_loop bl tr (clip_init line bl tr) = Some (True, clip_init line bl tr)"
    by (subst clip_loop.simps) (simp add: clip_init_def a b)
  then have "clipLine line bl tr = Some (True, line)"
    by (simp add: clipLine_def clip_init_def)
  with a b show ?thesis by (simp add: INSIDE_def)
qed

theorem clipLine_inside_unchanged_witness:
  "point_inside \<lparr> px = 0, py = 0 \<rparr> \<lparr> px = 20, py = 10 \<rparr> \<lparr> px = 0, py = 3 \<rparr> \<and> point_inside \<lparr> px = 0, py = 0 \<rparr> \<lparr> px = 20, py = 10 \<rparr> \<lparr> px = 7, py = 10 \<rparr> \<and>
   clipLine \<lparr> start = \<lparr> px = 0, py = 3 \<rparr>, endp = \<lparr> px = 7, py = 10 \<rparr> \<rparr> \<lparr> px = 0, py = 0 \<rparr> \<lparr> px = 20, py = 10 \<rparr>
     = Some (True, \<lparr> start = \<lparr> px = 0, py = 3 \<rparr>, endp = \<lparr> px = 7, py = 10 \<rparr> \<rparr>)"
proof -
  have a: "point_inside \<lparr> px = 0, py = 0 \<rparr> \<lparr> px = 20, py = 10 \<rparr> (start \<lparr> start = \<lparr> px = 0, py = 3 \<rparr>, endp = \<lparr> px = 7, py = 10 \<rparr> \<rparr>)"
    by (simp add: point_inside_def)
  have b: "point_inside \<lparr> px = 0, py = 0 \<rparr> \<lparr> px = 20, py = 10 \<rparr> (endp \<lparr> start = \<lparr> px = 0, py = 3 \<rparr>, endp = \<lparr> px = 7, py = 10 \<rparr> \<rparr>)"
    by (simp add: point_inside_def)
  from clipLine_inside_unchanged[OF a b] a b show ?thesis by simp
qed

text \<open>
  Claim C9, as it is stated, fails: for the angle \<open>- 1 / 2 ^ 70\<close> (the double
  \<open>-8.470329472543003e-22\<close>) \<open>std::fmod\<close> returns the angle itself, and the sum with 360
  rounds to the double 360, which is not below 360.
\<close>

theorem normalize_angle_counterexample:
  "normalize_angle (- (1 / 2 ^ 70)) = 360 \<and> \<not> normalize_angle (- (1 / 2 ^ 70)) < 360"
proof -
  define a :: real where "a = - (1 / 2 ^ 70)"
  define s :: real where "s = a + 360"
  have q: "\<not> 0 \<le> a / 360" by (simp add: a_def)
  have c: "\<lceil>a / 360\<rceil> = 0" by (rule ceiling_unique) (simp_all add: a_def)
  have f: "fmod a 360 = a" unfolding fmod_def c using q by (simp only: if_False)
  have neg: "a < 0" by (simp add: a_def)
  have sp: "0 < s" "s \<noteq> 0" "\<bar>s\<bar> = s" by (simp_all add: s_def a_def)
  have "\<lfloor>log 2 s\<rfloor> = 8"
    using sp(1) by (subst floor_log_eq_powr_iff) (simp_all add: s_def a_def)
  then have u: "ulp s = 1 / 2 ^ 44"
    by (simp add: ulp_def sp(3) powr_neg_numeral)
  have z: "s / ulp s = of_int (360 * 2 ^ 44 - 1) + (1 - 1 / 2 ^ 26)"
    unfolding u by (simp add: s_def a_def)
  have fl: "\<lfloor>s / ulp s\<rfloor> = 360 * 2 ^ 44 - 1"
    unfolding z by (rule floor_unique) simp_all
  have fr: "s / ulp s - of_int \<lfloor>s / ulp s\<rfloor> = 1 - 1 / 2 ^ 26"
    unfolding fl unfolding z by simp
  have "round_half_even (s / ulp s) = 360 * 2 ^ 44 - 1 + 1"
    unfolding round_half_even_def fr unfolding fl by simp
  then have "of_int (round_half_even (s / ulp s)) * ulp s = 360"
    unfolding u by simp
  then have "round_double s = 360" using sp(2) by (simp only: round_double_def if_False)
  then have "normalize_angle a = 360"
    using neg by (simp only: normalize_angle_def Let_def f s_def if_True dadd_def)
  then have "normalize_angle (- (1 / 2 ^ 70)) = 360" by (simp only: a_def)
  then show ?thesis by simp
qed

text \<open>
  Claim C9, amended. For every angle the normalised angle is at least 0 and at most 360.
  (Line 211 tests for the value 360 and treats it as 0.)
\<close>

theorem normalize_angle_range: "0 \<le> normalize_angle a \<and> normalize_angle a \<le> 360"
proof (cases "fmod a 360 < 0")
  case True
  have "\<bar>fmod a 360\<bar> < 360" by (rule fmod_range(1)) simp
  then have "0 < fmod a 360 + 360" "fmod a 360 + 360 < 360" using True by simp_all
  from round_double_range[OF this] True show ?thesis by (simp add: normalize_angle_def dadd_def)
next
  case False
  have "\<bar>fmod a 360\<bar> < 360" by (rule fmod_range(1)) simp
  then show ?thesis using False by (simp add: normalize_angle_def)
qed

text \<open>
  Claim C10. When \<open>clipLine\<close> returns false, its argument \<open>line\<close> is as it was passed in:
  the endpoints are written back on the accept path only.
\<close>

theorem clipLine_reject_unchanged:
  "clipLine line bl tr = Some (False, line') \<Longrightarrow> line' = line"
  by (auto simp: clipLine_def split: option.splits prod.splits if_splits)

theorem clipLine_reject_unchanged_witness:
  "clipLine \<lparr> start = \<lparr> px = - 5, py = 5 \<rparr>, endp = \<lparr> px = 5, py = 25 \<rparr> \<rparr> \<lparr> px = 0, py = 0 \<rparr> \<lparr> px = 20, py = 10 \<rparr> = Some (False, \<lparr> start = \<lparr> px = - 5, py = 5 \<rparr>, endp = \<lparr> px = 5, py = 25 \<rparr> \<rparr>)"
proof -
  have "\<exists>l'. clipLine \<lparr> start = \<lparr> px = - 5, py = 5 \<rparr>, endp = \<lparr> px = 5, py = 25 \<rparr> \<rparr> \<lparr> px = 0, py = 0 \<rparr> \<lparr> px = 20, py = 10 \<rparr> = Some (False, l')"
    by (simp add: clipLine_def clip_init_def clip_loop.simps trim_step_def trim_point_def
        outcodeOut_def computeOutCode_def oc_consts darith)
  then obtain l' where l': "clipLine \<lparr> start = \<lparr> px = - 5, py = 5 \<rparr>, endp = \<lparr> px = 5, py = 25 \<rparr> \<rparr> \<lparr> px = 0, py = 0 \<rparr> \<lparr> px = 20, py = 10 \<rparr> = Some (False, l')" ..
  from clipLine_reject_unchanged[OF l'] l' show ?thesis by simp
qed

end
